theory Spec2Isabelle
  imports Complex_Main
begin

section \<open>Exceptions and Python truthiness\<close>

text \<open>
  The exceptions the modelled code raises or lets through. The payload is what the
  source formats into the message: \<open>RateLimitError n\<close> is the source's
  \<open>RateLimitError(f"Rate limited. Retry after {n} seconds")\<close>, \<open>MusicServiceError st body\<close>
  is \<open>MusicServiceError(f"API error {st}: {body}")\<close>. \<open>TransportError\<close> and \<open>OSError\<close>
  stand for what the HTTP client, the socket layer and the file system raise.
\<close>

datatype exn =
    AuthenticationError string
  | RateLimitError int
  | MusicServiceError int string
  | KeyError string
  | IndexError
  | ValueError string
  | TimeoutError string
  | Exception string
  | AttributeError string
  | OSError string
  | TransportError string

text \<open>\<open>bool(x)\<close> for an \<open>Optional[str]\<close> and an \<open>Optional[float]\<close>: \<open>None\<close>, the empty
  string and zero are falsy.\<close>

fun truthy_str :: "string option \<Rightarrow> bool" where
  "truthy_str None = False"
| "truthy_str (Some s) = (s \<noteq> [])"

fun truthy_num :: "real option \<Rightarrow> bool" where
  "truthy_num None = False"
| "truthy_num (Some x) = (x \<noteq> 0)"

section \<open>config.py: TokenManager\<close>

text \<open>
  Clock readings (\<open>time.time()\<close>) and \<open>expires_at\<close> are real numbers here; the rounding of
  the source's floats is not modelled. \<open>stored\<close> is the document in the token file
  (\<open>None\<close>: no file).
\<close>

record token_data =
  td_access_token :: "string option"
  td_refresh_token :: "string option"
  td_expires_at :: "real option"

record TokenManager =
  access_token :: "string option"
  refresh_token :: "string option"
  expires_at :: "real option"
  stored :: "token_data option"

text \<open>\<open>is_token_valid\<close>; \<open>now\<close> is what \<open>time.time()\<close> returns.\<close>

definition is_token_valid :: "TokenManager \<Rightarrow> real \<Rightarrow> bool" where
  "is_token_valid tm now =
     (if \<not> truthy_str (access_token tm) \<or> \<not> truthy_num (expires_at tm) then False
      else (case expires_at tm of None \<Rightarrow> False | Some e \<Rightarrow> now < e - 300))"

definition has_refresh_token :: "TokenManager \<Rightarrow> bool" where
  "has_refresh_token tm = truthy_str (refresh_token tm)"


section \<open>models.py: the domain entities\<close>

datatype PlaylistType = OWNED | FOLLOWED | COLLABORATIVE

datatype TrackType = TRACK | EPISODE | LOCAL

text \<open>A \<open>datetime\<close> is an instant; \<open>Dict[str, str]\<close> is an association list.\<close>

datatype datetime = Datetime int

type_synonym urls = "(string \<times> string) list"

type_synonym image = "(string \<times> string) list"

record Artist =
  artist_id :: string
  artist_name :: string
  artist_uri :: string
  artist_external_urls :: urls

record Album =
  album_id :: string
  album_name :: string
  album_uri :: string
  album_release_date :: string
  album_type :: string
  album_artists :: "Artist list"
  album_images :: "image list"
  album_external_urls :: urls

record Track =
  track_id :: string
  track_name :: string
  track_uri :: string
  track_type :: TrackType
  duration_ms :: int
  explicit :: bool
  popularity :: int
  preview_url :: "string option"
  track_number :: int
  disc_number :: int
  track_artists :: "Artist list"
  track_album :: Album
  track_external_urls :: urls
  isrc :: "string option"
  added_at :: "datetime option"
  added_by_user_id :: "string option"

record PlaylistOwner =
  owner_id :: string
  owner_display_name :: string
  owner_uri :: string
  owner_external_urls :: urls

record Playlist =
  playlist_id :: string
  playlist_name :: string
  description :: "string option"
  playlist_uri :: string
  playlist_type :: PlaylistType
  public :: bool
  collaborative :: bool
  owner :: PlaylistOwner
  follower_count :: int
  track_count :: int
  tracks :: "Track list"
  images :: "image list"
  external_urls :: urls
  snapshot_id :: string
  created_at :: "datetime option"
  modified_at :: "datetime option"

record UserProfile =
  user_id :: string
  user_display_name :: string
  email :: string
  country :: string
  user_follower_count :: int
  user_uri :: string
  user_external_urls :: urls
  user_images :: "image list"
  product :: string

section \<open>The wire records\<close>

text \<open>
  A decoded JSON object is a \<open>Dict[str, Any]\<close> in the source. Here each object the
  parsers read is a record with one field per key they read: \<open>None\<close> is an absent key
  (\<open>d[k]\<close> raises \<open>KeyError\<close>, \<open>d.get(k, v)\<close> gives \<open>v\<close>), \<open>Some x\<close> a key that is present.
  A value has the type the dataclass of \<open>models.py\<close> declares for the field it fills.
  The two keys the source tests for \<open>null\<close> (\<open>item["track"]\<close> and the track's \<open>id\<close>, which
  the service sends as \<open>null\<close> for removed tracks and local files) have a second
  \<open>option\<close>: \<open>Some None\<close> is a present key holding \<open>null\<close>. An object that is
  present is not the empty dict (which Python takes as false).
\<close>

record wire_artist =
  wa_id :: "string option"
  wa_name :: "string option"
  wa_uri :: "string option"
  wa_external_urls :: "urls option"

record wire_album =
  wal_id :: "string option"
  wal_name :: "string option"
  wal_uri :: "string option"
  wal_release_date :: "string option"
  wal_album_type :: "string option"
  wal_artists :: "wire_artist list option"
  wal_images :: "image list option"
  wal_external_urls :: "urls option"

record wire_track =
  wt_id :: "string option option"
  wt_name :: "string option"
  wt_uri :: "string option"
  wt_duration_ms :: "int option"
  wt_explicit :: "bool option"
  wt_popularity :: "int option"
  wt_preview_url :: "string option"
  wt_track_number :: "int option"
  wt_disc_number :: "int option"
  wt_artists :: "wire_artist list option"
  wt_album :: "wire_album option"
  wt_external_urls :: "urls option"
  wt_external_ids :: "urls option"

record wire_added_by =
  wab_id :: "string option"

record wire_item =
  wi_track :: "wire_track option option"
  wi_added_at :: "string option"
  wi_added_by :: "wire_added_by option"

record wire_total =
  w_total :: "int option"

record wire_owner =
  wo_id :: "string option"
  wo_display_name :: "string option"
  wo_uri :: "string option"
  wo_external_urls :: "urls option"

record wire_playlist =
  wp_id :: "string option"
  wp_name :: "string option"
  wp_description :: "string option"
  wp_uri :: "string option"
  wp_public :: "bool option"
  wp_collaborative :: "bool option"
  wp_owner :: "wire_owner option"
  wp_followers :: "wire_total option"
  wp_tracks :: "wire_total option"
  wp_images :: "image list option"
  wp_external_urls :: "urls option"
  wp_snapshot_id :: "string option"

record wire_user =
  wu_id :: "string option"
  wu_display_name :: "string option"
  wu_email :: "string option"
  wu_country :: "string option"
  wu_followers :: "wire_total option"
  wu_uri :: "string option"
  wu_external_urls :: "urls option"
  wu_images :: "image list option"
  wu_product :: "string option"

record 'a wire_page =
  pg_items :: "'a list option"
  pg_next :: "string option"

record wire_token =
  wk_access_token :: "string option"
  wk_refresh_token :: "string option"
  wk_expires_in :: "int option"

text \<open>\<open>d[k]\<close> and \<open>d.get(k, v)\<close> on such a record, and sequencing of a computation that may
  raise.\<close>

fun key :: "string \<Rightarrow> 'a option \<Rightarrow> exn + 'a" where
  "key k None = Inl (KeyError k)"
| "key k (Some v) = Inr v"

fun get_or :: "'a option \<Rightarrow> 'a \<Rightarrow> 'a" where
  "get_or None d = d"
| "get_or (Some v) d = v"

fun ebind :: "exn + 'a \<Rightarrow> ('a \<Rightarrow> exn + 'b) \<Rightarrow> exn + 'b" where
  "ebind (Inl e) f = Inl e"
| "ebind (Inr v) f = f v"


section \<open>The environment and the program state\<close>

text \<open>
  What an HTTP client hands back: the status, the \<open>Retry-After\<close> header (when present, a
  number of seconds), the body as text and the body decoded (\<open>response.json()\<close>, which
  may raise).
\<close>

record 'a response =
  status :: int
  retry_after :: "int option"
  body_text :: string
  body_json :: "exn + 'a"

datatype param = PInt int | PStr string

text \<open>A request to the Web API as \<open>session.request\<close> gets it: method, endpoint, query
  parameters.\<close>

datatype api_request = Request string string "(string \<times> param) list"

type_synonym form = "(string \<times> string option) list"

text \<open>The result of \<open>urllib.parse.parse_qs\<close>: each key with the list of its values.\<close>

type_synonym query = "(string \<times> string list) list"

type_synonym url = "string \<times> (string \<times> string) list"

text \<open>
  Everything outside the process is a function of a logical time, the number \<open>ticks\<close> of
  interactions the program has had with it so far: the clock, the answers of the Web API
  and of the token endpoint, whether the callback port is taken, the random state token,
  the redirects the callback server handles between two looks at it, whether the token
  file can be written, and \<open>datetime.fromisoformat\<close> (\<open>None\<close>: it raises \<open>ValueError\<close>).
\<close>

record env =
  clock :: "nat \<Rightarrow> real"
  me_endpoint :: "nat \<Rightarrow> exn + wire_user response"
  playlists_endpoint :: "nat \<Rightarrow> int \<Rightarrow> int \<Rightarrow> exn + wire_playlist wire_page response"
  playlist_endpoint :: "nat \<Rightarrow> string \<Rightarrow> exn + wire_playlist response"
  tracks_endpoint :: "nat \<Rightarrow> string \<Rightarrow> int \<Rightarrow> int \<Rightarrow> exn + wire_item wire_page response"
  token_endpoint :: "nat \<Rightarrow> form \<Rightarrow> exn + wire_token response"
  port_busy :: "nat \<Rightarrow> bool"
  random_state :: "nat \<Rightarrow> string"
  arrivals :: "nat \<Rightarrow> query list"
  disk_error :: "nat \<Rightarrow> bool"
  fromisoformat :: "string \<Rightarrow> datetime option"

text \<open>The attributes \<open>start_server\<close> puts on the \<open>HTTPServer\<close> object.\<close>

record http_server =
  auth_code :: "string option"
  auth_error :: "string option"
  auth_state :: "string option"
  callback_received :: bool

record SpotifyConfig =
  client_id :: "string option"
  client_secret :: "string option"
  redirect_uri :: string
  scopes :: "string list"

text \<open>
  The state of one \<open>SpotifyService\<close> object with the objects it owns (its
  \<open>SpotifyConfig\<close>, \<open>TokenManager\<close> and the \<open>SpotifyOAuthServer\<close> of its authenticator:
  \<open>server\<close> is \<open>None\<close> until \<open>start_server\<close>, \<open>expected_state\<close> is \<open>None\<close> while the
  attribute does not exist), and the trace of what it has done to the outside:
  \<open>api_log\<close> the requests sent to the Web API, \<open>token_log\<close> the forms posted to the
  token endpoint, \<open>browser_log\<close> the URLs opened, \<open>listening\<close> whether the callback port
  is held, \<open>reported\<close> the exceptions the authenticator caught and printed.
\<close>

record state =
  config :: SpotifyConfig
  token_manager :: TokenManager
  server :: "http_server option"
  expected_state :: "string option"
  authenticated :: bool
  user_profile :: "UserProfile option"
  ticks :: nat
  api_log :: "api_request list"
  token_log :: "form list"
  browser_log :: "url list"
  listening :: bool
  reported :: "exn list"

definition tick :: "state \<Rightarrow> state" where
  "tick s = s\<lparr>ticks := ticks s + 1\<rparr>"

section \<open>oauth\_server.py: SpotifyAuthenticator.get\_access\_token\<close>

definition get_access_token :: "state \<Rightarrow> real \<Rightarrow> string option" where
  "get_access_token s now =
     (if is_token_valid (token_manager s) now then access_token (token_manager s) else None)"

section \<open>services/spotify\_service.py\<close>

text \<open>
  \<open>_make_request\<close>. \<open>transport\<close> is the answer of the endpoint asked, at the time of the
  call. A call that finds no valid token raises before anything is sent; otherwise the
  request is sent (it joins \<open>api_log\<close>) and the status decides.
\<close>

definition make_request ::
  "env \<Rightarrow> string \<Rightarrow> string \<Rightarrow> (string \<times> param) list \<Rightarrow> (nat \<Rightarrow> exn + 'a response) \<Rightarrow>
   state \<Rightarrow> (exn + 'a) \<times> state" where
  "make_request e method endpoint params transport s =
     (let k = ticks s; s1 = tick s in
      if \<not> truthy_str (get_access_token s (clock e k))
      then (Inl (AuthenticationError ''No valid access token''), s1)
      else
        (let s2 = s1\<lparr>api_log := api_log s1 @ [Request method endpoint params]\<rparr> in
         case transport k of
           Inl err \<Rightarrow> (Inl err, s2)
         | Inr r \<Rightarrow>
             if status r = 429 then (Inl (RateLimitError (get_or (retry_after r) 60)), s2)
             else if status r = 401
             then (Inl (AuthenticationError ''Access token expired or invalid''), s2)
             else if status r \<ge> 400 then (Inl (MusicServiceError (status r) (body_text r)), s2)
             else (body_json r, s2)))"

fun map_exn :: "('a \<Rightarrow> exn + 'b) \<Rightarrow> 'a list \<Rightarrow> exn + 'b list" where
  "map_exn f [] = Inr []"
| "map_exn f (x # xs) = ebind (f x) (\<lambda>y. ebind (map_exn f xs) (\<lambda>ys. Inr (y # ys)))"

text \<open>\<open>_parse_playlist_summary\<close>\<close>

definition parse_playlist_summary :: "state \<Rightarrow> wire_playlist \<Rightarrow> exn + Playlist" where
  "parse_playlist_summary s data =
     ebind (key ''owner'' (wp_owner data)) (\<lambda>ow.
     ebind (key ''id'' (wo_id ow)) (\<lambda>oid.
     ebind (key ''display_name'' (wo_display_name ow)) (\<lambda>odn.
     ebind (key ''uri'' (wo_uri ow)) (\<lambda>ouri.
     let own = \<lparr>owner_id = oid, owner_display_name = odn, owner_uri = ouri,
                owner_external_urls = get_or (wo_external_urls ow) []\<rparr>;
         current_user_id = (case user_profile s of None \<Rightarrow> None | Some u \<Rightarrow> Some (user_id u));
         ptype = (if Some oid = current_user_id
                  then (if get_or (wp_collaborative data) False then COLLABORATIVE else OWNED)
                  else FOLLOWED)
     in
     ebind (key ''id'' (wp_id data)) (\<lambda>pid.
     ebind (key ''name'' (wp_name data)) (\<lambda>pname.
     ebind (key ''uri'' (wp_uri data)) (\<lambda>puri.
     ebind (key ''tracks'' (wp_tracks data)) (\<lambda>tr.
     ebind (key ''total'' (w_total tr)) (\<lambda>total.
     ebind (key ''snapshot_id'' (wp_snapshot_id data)) (\<lambda>snap.
     Inr \<lparr>playlist_id = pid, playlist_name = pname, description = wp_description data,
          playlist_uri = puri, playlist_type = ptype,
          public = get_or (wp_public data) False,
          collaborative = get_or (wp_collaborative data) False,
          owner = own,
          follower_count = get_or (w_total (get_or (wp_followers data) \<lparr>w_total = None\<rparr>)) 0,
          track_count = total, tracks = [],
          images = get_or (wp_images data) [],
          external_urls = get_or (wp_external_urls data) [],
          snapshot_id = snap, created_at = None, modified_at = None\<rparr>))))))))))"

text \<open>\<open>_parse_playlist_detailed\<close>\<close>

definition parse_playlist_detailed ::
  "state \<Rightarrow> wire_playlist \<Rightarrow> Track list \<Rightarrow> exn + Playlist" where
  "parse_playlist_detailed s data trks =
     ebind (parse_playlist_summary s data) (\<lambda>playlist. Inr (playlist\<lparr>tracks := trks\<rparr>))"


text \<open>\<open>get_user_profile\<close>\<close>

definition parse_user_profile :: "wire_user \<Rightarrow> exn + UserProfile" where
  "parse_user_profile data =
     ebind (key ''id'' (wu_id data)) (\<lambda>uid.
     ebind (key ''uri'' (wu_uri data)) (\<lambda>uuri.
     Inr \<lparr>user_id = uid,
          user_display_name = get_or (wu_display_name data) uid,
          email = get_or (wu_email data) [],
          country = get_or (wu_country data) [],
          user_follower_count = get_or (w_total (get_or (wu_followers data) \<lparr>w_total = None\<rparr>)) 0,
          user_uri = uuri,
          user_external_urls = get_or (wu_external_urls data) [],
          user_images = get_or (wu_images data) [],
          product = get_or (wu_product data) ''free''\<rparr>))"

definition get_user_profile :: "env \<Rightarrow> state \<Rightarrow> (exn + UserProfile) \<times> state" where
  "get_user_profile e s =
     (if \<not> authenticated s then (Inl (AuthenticationError ''Not authenticated''), s)
      else
        (case make_request e ''GET'' ''/me'' [] (me_endpoint e) s of
           (Inl err, s1) \<Rightarrow> (Inl err, s1)
         | (Inr data, s1) \<Rightarrow> (parse_user_profile data, s1)))"

text \<open>\<open>_parse_track\<close>\<close>

definition parse_artist :: "wire_artist \<Rightarrow> exn + Artist" where
  "parse_artist a =
     ebind (key ''id'' (wa_id a)) (\<lambda>i.
     ebind (key ''name'' (wa_name a)) (\<lambda>n.
     ebind (key ''uri'' (wa_uri a)) (\<lambda>u.
     Inr \<lparr>artist_id = i, artist_name = n, artist_uri = u,
          artist_external_urls = get_or (wa_external_urls a) []\<rparr>)))"

definition empty_album :: wire_album where
  "empty_album =
     \<lparr>wal_id = None, wal_name = None, wal_uri = None, wal_release_date = None,
      wal_album_type = None, wal_artists = None, wal_images = None,
      wal_external_urls = None\<rparr>"

text \<open>\<open>added_at_str.replace('Z', '+00:00')\<close>\<close>

definition replace_Z :: "string \<Rightarrow> string" where
  "replace_Z str = concat (map (\<lambda>c. if c = CHR ''Z'' then ''+00:00'' else [c]) str)"

text \<open>The track's \<open>id\<close> may be \<open>null\<close> on the wire; the caller skips such a track, and the
  parser, called on one, stores the empty string for it here.\<close>

definition parse_track ::
  "env \<Rightarrow> wire_track \<Rightarrow> string option \<Rightarrow> wire_added_by option \<Rightarrow> exn + Track" where
  "parse_track e data added_at_str added_by =
     ebind (map_exn parse_artist (get_or (wt_artists data) [])) (\<lambda>artists.
     let album_data = get_or (wt_album data) empty_album in
     ebind (map_exn parse_artist (get_or (wal_artists album_data) [])) (\<lambda>album_artists.
     let album =
           \<lparr>album_id = get_or (wal_id album_data) [],
            album_name = get_or (wal_name album_data) [],
            album_uri = get_or (wal_uri album_data) [],
            album_release_date = get_or (wal_release_date album_data) [],
            album_type = get_or (wal_album_type album_data) ''album'',
            album_artists = album_artists,
            album_images = get_or (wal_images album_data) [],
            album_external_urls = get_or (wal_external_urls album_data) []\<rparr>;
         added =
           (case added_at_str of
              None \<Rightarrow> None
            | Some str \<Rightarrow> if str = [] then None else fromisoformat e (replace_Z str));
         isrc_code =
           (case wt_external_ids data of None \<Rightarrow> None | Some ids \<Rightarrow> map_of ids ''isrc'')
     in
     ebind (key ''id'' (wt_id data)) (\<lambda>tid.
     ebind (key ''name'' (wt_name data)) (\<lambda>tname.
     ebind (key ''uri'' (wt_uri data)) (\<lambda>turi.
     Inr \<lparr>track_id = get_or tid [], track_name = tname, track_uri = turi,
          track_type = TRACK,
          duration_ms = get_or (wt_duration_ms data) 0,
          explicit = get_or (wt_explicit data) False,
          popularity = get_or (wt_popularity data) 0,
          preview_url = wt_preview_url data,
          track_number = get_or (wt_track_number data) 1,
          disc_number = get_or (wt_disc_number data) 1,
          track_artists = artists,
          track_album = album,
          track_external_urls = get_or (wt_external_urls data) [],
          isrc = isrc_code,
          added_at = added,
          added_by_user_id = (case added_by of None \<Rightarrow> None | Some ab \<Rightarrow> wab_id ab)\<rparr>)))))"

text \<open>\<open>get_playlist_tracks\<close>: the body of its \<open>for item in data["items"]\<close> loop, then the
  \<open>while True\<close> loop over the pages, which need not end.\<close>

fun collect_tracks :: "env \<Rightarrow> wire_item list \<Rightarrow> exn + Track list" where
  "collect_tracks e [] = Inr []"
| "collect_tracks e (item # rest) =
     (case wi_track item of
        None \<Rightarrow> Inl (KeyError ''track'')
      | Some None \<Rightarrow> collect_tracks e rest
      | Some (Some t) \<Rightarrow>
          (case wt_id t of
             None \<Rightarrow> Inl (KeyError ''id'')
           | Some tid \<Rightarrow>
               if \<not> truthy_str tid then collect_tracks e rest
               else ebind (parse_track e t (wi_added_at item) (wi_added_by item)) (\<lambda>track.
                    ebind (collect_tracks e rest) (\<lambda>more. Inr (track # more)))))"

definition tracks_fields :: string where
  "tracks_fields = ''items(track(id,name,uri,duration_ms,explicit,popularity,track_number,disc_number,artists(id,name,uri,external_urls),album(id,name,uri,release_date,album_type,artists(id,name,uri,external_urls),images,external_urls),external_urls,external_ids),added_at,added_by(id)),next''"

partial_function (option) tracks_loop ::
  "env \<Rightarrow> string \<Rightarrow> Track list \<Rightarrow> int \<Rightarrow> state \<Rightarrow> ((exn + Track list) \<times> state) option" where
  "tracks_loop e pid trks offset s =
     (case make_request e ''GET'' (''/playlists/'' @ pid @ ''/tracks'')
             [(''limit'', PInt 50), (''offset'', PInt offset), (''fields'', PStr tracks_fields)]
             (\<lambda>k. tracks_endpoint e k pid 50 offset) s of
        (Inl err, s1) \<Rightarrow> Some (Inl err, s1)
      | (Inr data, s1) \<Rightarrow>
          (case ebind (key ''items'' (pg_items data)) (collect_tracks e) of
             Inl err \<Rightarrow> Some (Inl err, s1)
           | Inr new \<Rightarrow>
               if \<not> truthy_str (pg_next data) then Some (Inr (trks @ new), s1)
               else tracks_loop e pid (trks @ new) (offset + 50) s1))"

declare tracks_loop.simps [code]

definition get_playlist_tracks ::
  "env \<Rightarrow> string \<Rightarrow> state \<Rightarrow> ((exn + Track list) \<times> state) option" where
  "get_playlist_tracks e pid s =
     (if \<not> authenticated s then Some (Inl (AuthenticationError ''Not authenticated''), s)
      else tracks_loop e pid [] 0 s)"

text \<open>\<open>get_playlist_details\<close>\<close>

definition get_playlist_details ::
  "env \<Rightarrow> string \<Rightarrow> state \<Rightarrow> ((exn + Playlist) \<times> state) option" where
  "get_playlist_details e pid s =
     (if \<not> authenticated s then Some (Inl (AuthenticationError ''Not authenticated''), s)
      else
        (case make_request e ''GET'' (''/playlists/'' @ pid) [] (\<lambda>k. playlist_endpoint e k pid) s of
           (Inl err, s1) \<Rightarrow> Some (Inl err, s1)
         | (Inr data, s1) \<Rightarrow>
             (case get_playlist_tracks e pid s1 of
                None \<Rightarrow> None
              | Some (Inl err, s2) \<Rightarrow> Some (Inl err, s2)
              | Some (Inr trks, s2) \<Rightarrow> Some (parse_playlist_detailed s2 data trks, s2))))"

text \<open>
  \<open>get_user_playlists\<close>. \<open>truthy_int\<close> is \<open>if limit\<close> for an \<open>Optional[int]\<close>,
  \<open>slice_to\<close> is \<open>playlists[:limit]\<close> (a negative bound counts from the end).
  \<open>playlists_loop\<close> is the \<open>while True\<close> loop, \<open>playlist_summaries\<close> the function up to
  the truncation of the result, \<open>load_tracks\<close> the \<open>for\<close> loop with its
  \<open>try\<close>/\<open>except Exception\<close>.
\<close>

fun truthy_int :: "int option \<Rightarrow> bool" where
  "truthy_int None = False"
| "truthy_int (Some n) = (n \<noteq> 0)"

definition slice_to :: "'a list \<Rightarrow> int \<Rightarrow> 'a list" where
  "slice_to xs n = (if 0 \<le> n then take (nat n) xs else take (length xs - nat (- n)) xs)"

partial_function (option) playlists_loop ::
  "env \<Rightarrow> int \<Rightarrow> int option \<Rightarrow> Playlist list \<Rightarrow> int \<Rightarrow> state \<Rightarrow>
   ((exn + Playlist list) \<times> state) option" where
  "playlists_loop e batch_limit limit playlists offset s =
     (case make_request e ''GET'' ''/me/playlists''
             [(''limit'', PInt batch_limit), (''offset'', PInt offset)]
             (\<lambda>k. playlists_endpoint e k batch_limit offset) s of
        (Inl err, s1) \<Rightarrow> Some (Inl err, s1)
      | (Inr data, s1) \<Rightarrow>
          (case ebind (key ''items'' (pg_items data)) (map_exn (parse_playlist_summary s1)) of
             Inl err \<Rightarrow> Some (Inl err, s1)
           | Inr batch_playlists \<Rightarrow>
               if \<not> truthy_str (pg_next data) \<or>
                  (truthy_int limit \<and> int (length (playlists @ batch_playlists)) \<ge> get_or limit 0)
               then Some (Inr (playlists @ batch_playlists), s1)
               else playlists_loop e batch_limit limit (playlists @ batch_playlists)
                      (offset + batch_limit) s1))"

declare playlists_loop.simps [code]

fun load_tracks :: "env \<Rightarrow> Playlist list \<Rightarrow> state \<Rightarrow> (Playlist list \<times> state) option" where
  "load_tracks e [] s = Some ([], s)"
| "load_tracks e (playlist # rest) s =
     (case get_playlist_details e (playlist_id playlist) s of
        None \<Rightarrow> None
      | Some (r, s1) \<Rightarrow>
          (case load_tracks e rest s1 of
             None \<Rightarrow> None
           | Some (loaded, s2) \<Rightarrow>
               Some (playlist\<lparr>tracks := (case r of Inl err \<Rightarrow> [] | Inr detailed \<Rightarrow> tracks detailed)\<rparr>
                       # loaded, s2)))"

definition playlist_summaries ::
  "env \<Rightarrow> int option \<Rightarrow> state \<Rightarrow> ((exn + Playlist list) \<times> state) option" where
  "playlist_summaries e limit s =
     (case playlists_loop e (if truthy_int limit then min 50 (get_or limit 0) else 50) limit [] 0 s of
        None \<Rightarrow> None
      | Some (Inl err, s1) \<Rightarrow> Some (Inl err, s1)
      | Some (Inr playlists, s1) \<Rightarrow>
          Some (Inr (if truthy_int limit then slice_to playlists (get_or limit 0) else playlists),
                s1))"

definition get_user_playlists ::
  "env \<Rightarrow> int option \<Rightarrow> state \<Rightarrow> ((exn + Playlist list) \<times> state) option" where
  "get_user_playlists e limit s =
     (if \<not> authenticated s then Some (Inl (AuthenticationError ''Not authenticated''), s)
      else
        (case playlist_summaries e limit s of
           None \<Rightarrow> None
         | Some (Inl err, s1) \<Rightarrow> Some (Inl err, s1)
         | Some (Inr playlists, s1) \<Rightarrow>
             (case load_tracks e playlists s1 of
                None \<Rightarrow> None
              | Some (loaded, s2) \<Rightarrow> Some (Inr loaded, s2))))"

section \<open>oauth\_server.py\<close>

text \<open>
  \<open>CallbackHandler.do_GET\<close>: the new attributes of the server object, and the status of the
  response sent (\<open>Inr None\<close>: the handler returns without sending one; \<open>Inl\<close>: it
  raises). \<open>serve\<close> is the server thread handling requests one after the other;
  \<open>socketserver\<close> catches what a handler raises and goes on.
\<close>

definition do_GET :: "query \<Rightarrow> http_server \<Rightarrow> (exn + int option) \<times> http_server" where
  "do_GET query_params srv =
     (case map_of query_params ''code'' of
        Some codes \<Rightarrow>
          (case codes of
             [] \<Rightarrow> (Inl IndexError, srv)
           | c # _ \<Rightarrow>
               (case map_of query_params ''state'' of
                  None \<Rightarrow>
                    (Inr (Some 200),
                     srv\<lparr>auth_code := Some c, auth_state := None, callback_received := True\<rparr>)
                | Some [] \<Rightarrow> (Inl IndexError, srv\<lparr>auth_code := Some c\<rparr>)
                | Some (st # _) \<Rightarrow>
                    (Inr (Some 200),
                     srv\<lparr>auth_code := Some c, auth_state := Some st, callback_received := True\<rparr>)))
      | None \<Rightarrow>
          (case map_of query_params ''error'' of
             Some errs \<Rightarrow>
               (case errs of
                  [] \<Rightarrow> (Inl IndexError, srv)
                | er # _ \<Rightarrow> (Inr (Some 400), srv\<lparr>auth_error := Some er, callback_received := True\<rparr>))
           | None \<Rightarrow> (Inr None, srv\<lparr>callback_received := True\<rparr>)))"

fun serve :: "query list \<Rightarrow> http_server \<Rightarrow> http_server" where
  "serve [] srv = srv"
| "serve (q # qs) srv = serve qs (snd (do_GET q srv))"

text \<open>\<open>SpotifyOAuthServer\<close>\<close>

definition start_server :: "env \<Rightarrow> state \<Rightarrow> (exn + unit) \<times> state" where
  "start_server e s =
     (if port_busy e (ticks s) then (Inl (OSError ''Address already in use''), tick s)
      else (Inr (),
            (tick s)\<lparr>server := Some \<lparr>auth_code = None, auth_error = None, auth_state = None,
                                      callback_received = False\<rparr>,
                      listening := True\<rparr>))"

definition stop_server :: "state \<Rightarrow> state" where
  "stop_server s = (case server s of None \<Rightarrow> s | Some srv \<Rightarrow> s\<lparr>listening := False\<rparr>)"

fun join_spaces :: "string list \<Rightarrow> string" where
  "join_spaces [] = []"
| "join_spaces [x] = x"
| "join_spaces (x # y # ys) = x @ '' '' @ join_spaces (y # ys)"

definition get_scope_string :: "SpotifyConfig \<Rightarrow> string" where
  "get_scope_string cfg = join_spaces (scopes cfg)"

definition get_authorization_url :: "env \<Rightarrow> state \<Rightarrow> url \<times> state" where
  "get_authorization_url e s =
     (let st = random_state e (ticks s) in
      ((''https://accounts.spotify.com/authorize'',
        [(''client_id'', get_or (client_id (config s)) ''None''),
         (''response_type'', ''code''),
         (''redirect_uri'', redirect_uri (config s)),
         (''scope'', get_scope_string (config s)),
         (''state'', st),
         (''show_dialog'', ''true'')]),
       (tick s)\<lparr>expected_state := Some st\<rparr>))"

text \<open>
  The poll loop of \<open>wait_for_callback\<close>. Each test of \<open>callback_received\<close> sees the server
  object after the server thread has handled the redirects that arrived since the last
  look; then the clock is read. The loop need not end.
\<close>

partial_function (option) wait_loop ::
  "env \<Rightarrow> real \<Rightarrow> real \<Rightarrow> state \<Rightarrow> ((exn + unit) \<times> state) option" where
  "wait_loop e start_time timeout s =
     (case server s of
        None \<Rightarrow> Some (Inl (AttributeError ''callback_received''), s)
      | Some srv \<Rightarrow>
          (let srv1 = serve (arrivals e (ticks s)) srv;
               s1 = (tick s)\<lparr>server := Some srv1\<rparr>
           in if callback_received srv1 then Some (Inr (), s1)
              else if clock e (ticks s1) - start_time > timeout
              then Some (Inl (TimeoutError ''OAuth callback timeout''), tick s1)
              else wait_loop e start_time timeout (tick s1)))"

declare wait_loop.simps [code]

definition wait_for_callback ::
  "env \<Rightarrow> real \<Rightarrow> state \<Rightarrow> ((exn + string option) \<times> state) option" where
  "wait_for_callback e timeout s =
     (case server s of
        None \<Rightarrow> Some (Inl (Exception ''Server not started''), s)
      | Some srv0 \<Rightarrow>
          (case wait_loop e (clock e (ticks s)) timeout (tick s) of
             None \<Rightarrow> None
           | Some (Inl err, s1) \<Rightarrow> Some (Inl err, s1)
           | Some (Inr u, s1) \<Rightarrow>
               (case server s1 of
                  None \<Rightarrow> Some (Inl (AttributeError ''auth_error''), s1)
                | Some srv \<Rightarrow>
                    if truthy_str (auth_error srv)
                    then Some (Inl (Exception (''OAuth error: '' @ get_or (auth_error srv) [])), s1)
                    else if (case expected_state s1 of
                               None \<Rightarrow> False
                             | Some expected \<Rightarrow> auth_state srv \<noteq> Some expected)
                    then Some (Inl (Exception ''State parameter mismatch - possible CSRF attack''), s1)
                    else Some (Inr (auth_code srv), s1))))"

definition post_token :: "env \<Rightarrow> form \<Rightarrow> string \<Rightarrow> state \<Rightarrow> (exn + wire_token) \<times> state" where
  "post_token e token_data failure s =
     (let s1 = (tick s)\<lparr>token_log := token_log s @ [token_data]\<rparr> in
      case token_endpoint e (ticks s) token_data of
        Inl err \<Rightarrow> (Inl err, s1)
      | Inr r \<Rightarrow>
          if status r \<noteq> 200 then (Inl (Exception (failure @ body_text r)), s1)
          else (body_json r, s1))"

definition exchange_code_for_tokens ::
  "env \<Rightarrow> string \<Rightarrow> state \<Rightarrow> (exn + wire_token) \<times> state" where
  "exchange_code_for_tokens e code s =
     post_token e
       [(''grant_type'', Some ''authorization_code''),
        (''code'', Some code),
        (''redirect_uri'', Some (redirect_uri (config s))),
        (''client_id'', client_id (config s)),
        (''client_secret'', client_secret (config s))]
       ''Token exchange failed: '' s"

definition refresh_access_token ::
  "env \<Rightarrow> string option \<Rightarrow> state \<Rightarrow> (exn + wire_token) \<times> state" where
  "refresh_access_token e rtoken s =
     post_token e
       [(''grant_type'', Some ''refresh_token''),
        (''refresh_token'', rtoken),
        (''client_id'', client_id (config s)),
        (''client_secret'', client_secret (config s))]
       ''Token refresh failed: '' s"

text \<open>
  \<open>TokenManager.save_tokens\<close>: the attributes are assigned first, then the file is
  written, which may fail.
\<close>

definition save_tokens ::
  "env \<Rightarrow> string \<Rightarrow> string option \<Rightarrow> int \<Rightarrow> state \<Rightarrow> (exn + unit) \<times> state" where
  "save_tokens e atoken rtoken expires_in s =
     (let tm = (token_manager s)\<lparr>access_token := Some atoken, refresh_token := rtoken,
                 expires_at := Some (clock e (ticks s) + real_of_int expires_in)\<rparr>;
          s1 = tick s
      in if disk_error e (ticks s1)
         then (Inl (OSError ''cannot write the token file''), (tick s1)\<lparr>token_manager := tm\<rparr>)
         else (Inr (),
               (tick s1)\<lparr>token_manager :=
                  tm\<lparr>stored := Some \<lparr>td_access_token = access_token tm,
                                       td_refresh_token = refresh_token tm,
                                       td_expires_at = expires_at tm\<rparr>\<rparr>\<rparr>))"

text \<open>\<open>SpotifyAuthenticator._refresh_token\<close>\<close>

definition authenticator_refresh_token :: "env \<Rightarrow> state \<Rightarrow> bool \<times> state" where
  "authenticator_refresh_token e s =
     (case refresh_access_token e (refresh_token (token_manager s)) s of
        (Inl err, s1) \<Rightarrow> (False, s1\<lparr>reported := reported s1 @ [err]\<rparr>)
      | (Inr token_response, s1) \<Rightarrow>
          (case ebind (key ''access_token'' (wk_access_token token_response)) (\<lambda>a.
                ebind (key ''expires_in'' (wk_expires_in token_response)) (\<lambda>ei. Inr (a, ei))) of
             Inl err \<Rightarrow> (False, s1\<lparr>reported := reported s1 @ [err]\<rparr>)
           | Inr (a, ei) \<Rightarrow>
               (case save_tokens e a
                       (case wk_refresh_token token_response of
                          None \<Rightarrow> refresh_token (token_manager s1)
                        | Some r \<Rightarrow> Some r)
                       ei s1 of
                  (Inl err, s2) \<Rightarrow> (False, s2\<lparr>reported := reported s2 @ [err]\<rparr>)
                | (Inr u, s2) \<Rightarrow> (True, s2))))"

text \<open>\<open>SpotifyAuthenticator._new_authentication\<close>: the \<open>try\<close> block, then \<open>except\<close> and
  \<open>finally\<close>.\<close>

definition new_authentication_try :: "env \<Rightarrow> state \<Rightarrow> ((exn + unit) \<times> state) option" where
  "new_authentication_try e s =
     (case start_server e s of
        (Inl err, s1) \<Rightarrow> Some (Inl err, s1)
      | (Inr u, s1) \<Rightarrow>
          (case get_authorization_url e s1 of
             (auth_url, s2) \<Rightarrow>
               (case wait_for_callback e 300 (s2\<lparr>browser_log := browser_log s2 @ [auth_url]\<rparr>) of
                  None \<Rightarrow> None
                | Some (Inl err, s3) \<Rightarrow> Some (Inl err, s3)
                | Some (Inr code, s3) \<Rightarrow>
                    if \<not> truthy_str code
                    then Some (Inl (Exception ''No authorization code received''), s3)
                    else
                      (case exchange_code_for_tokens e (get_or code []) s3 of
                         (Inl err, s4) \<Rightarrow> Some (Inl err, s4)
                       | (Inr token_response, s4) \<Rightarrow>
                           (case ebind (key ''access_token'' (wk_access_token token_response)) (\<lambda>a.
                                 ebind (key ''refresh_token'' (wk_refresh_token token_response)) (\<lambda>r.
                                 ebind (key ''expires_in'' (wk_expires_in token_response)) (\<lambda>ei.
                                 Inr (a, r, ei)))) of
                              Inl err \<Rightarrow> Some (Inl err, s4)
                            | Inr (a, r, ei) \<Rightarrow> Some (save_tokens e a (Some r) ei s4))))))"

definition new_authentication :: "env \<Rightarrow> state \<Rightarrow> (bool \<times> state) option" where
  "new_authentication e s =
     (case new_authentication_try e s of
        None \<Rightarrow> None
      | Some (Inl err, s1) \<Rightarrow> Some (False, stop_server (s1\<lparr>reported := reported s1 @ [err]\<rparr>))
      | Some (Inr u, s1) \<Rightarrow> Some (True, stop_server s1))"

text \<open>\<open>SpotifyAuthenticator.authenticate\<close>\<close>

definition authenticator_authenticate :: "env \<Rightarrow> state \<Rightarrow> (bool \<times> state) option" where
  "authenticator_authenticate e s =
     (if is_token_valid (token_manager s) (clock e (ticks s)) then Some (True, tick s)
      else if has_refresh_token (token_manager s)
      then (case authenticator_refresh_token e (tick s) of
              (True, s1) \<Rightarrow> Some (True, s1)
            | (False, s1) \<Rightarrow> new_authentication e s1)
      else new_authentication e (tick s))"

section \<open>services/spotify\_service.py: SpotifyService.authenticate and the constructor\<close>

definition is_configured :: "SpotifyConfig \<Rightarrow> bool" where
  "is_configured cfg = (truthy_str (client_id cfg) \<and> truthy_str (client_secret cfg))"

definition service_authenticate :: "env \<Rightarrow> state \<Rightarrow> (bool \<times> state) option" where
  "service_authenticate e s =
     (if \<not> is_configured (config s) then Some (False, s)
      else
        (case authenticator_authenticate e s of
           None \<Rightarrow> None
         | Some (False, s1) \<Rightarrow> Some (False, s1)
         | Some (True, s1) \<Rightarrow>
             (case get_user_profile e (s1\<lparr>authenticated := True\<rparr>) of
                (Inl err, s2) \<Rightarrow> Some (True, s2)
              | (Inr profile, s2) \<Rightarrow> Some (True, s2\<lparr>user_profile := Some profile\<rparr>))))"

text \<open>\<open>SpotifyService.__init__\<close> for a configuration and a token file as
  \<open>load_config\<close> and \<open>load_tokens\<close> find them.\<close>

definition new_service :: "SpotifyConfig \<Rightarrow> token_data option \<Rightarrow> state" where
  "new_service cfg file =
     \<lparr>config = cfg,
      token_manager =
        (case file of
           None \<Rightarrow> \<lparr>access_token = None, refresh_token = None, expires_at = None, stored = None\<rparr>
         | Some td \<Rightarrow> \<lparr>access_token = td_access_token td, refresh_token = td_refresh_token td,
                       expires_at = td_expires_at td, stored = Some td\<rparr>),
      server = None, expected_state = None,
      authenticated = False, user_profile = None,
      ticks = 0, api_log = [], token_log = [], browser_log = [], listening = False,
      reported = []\<rparr>"


section \<open>A paged collection and sample data\<close>

text \<open>
  The Web API serving a collection in pages: the answer to \<open>limit\<close> and \<open>offset\<close> holds
  the items from \<open>offset\<close> on, at most \<open>limit\<close> of them, and a \<open>next\<close> link exactly when
  items remain after them.
\<close>

definition ok_response :: "'a \<Rightarrow> 'a response" where
  "ok_response x = \<lparr>status = 200, retry_after = None, body_text = [], body_json = Inr x\<rparr>"

definition paged :: "'a list \<Rightarrow> int \<Rightarrow> int \<Rightarrow> 'a wire_page response" where
  "paged coll lmt off =
     ok_response
       \<lparr>pg_items = Some (take (nat lmt) (drop (nat off) coll)),
        pg_next = (if off + lmt < int (length coll) then Some ''next'' else None)\<rparr>"

text \<open>The request the playlist loop sends for the page at \<open>offset\<close>.\<close>

definition page_request :: "int \<Rightarrow> int \<Rightarrow> api_request" where
  "page_request batch_limit offset =
     Request ''GET'' ''/me/playlists'' [(''limit'', PInt batch_limit), (''offset'', PInt offset)]"

text \<open>Wire records with every key the parsers demand.\<close>

definition sample_playlist :: "string \<Rightarrow> string \<Rightarrow> bool \<Rightarrow> wire_playlist" where
  "sample_playlist pid uid collab =
     \<lparr>wp_id = Some pid, wp_name = Some pid, wp_description = None,
      wp_uri = Some (''spotify:playlist:'' @ pid), wp_public = Some True,
      wp_collaborative = Some collab,
      wp_owner = Some \<lparr>wo_id = Some uid, wo_display_name = Some uid,
                        wo_uri = Some (''spotify:user:'' @ uid), wo_external_urls = None\<rparr>,
      wp_followers = None, wp_tracks = Some \<lparr>w_total = Some 1\<rparr>,
      wp_images = None, wp_external_urls = None, wp_snapshot_id = Some ''v1''\<rparr>"

definition sample_item :: "string \<Rightarrow> wire_item" where
  "sample_item tid =
     \<lparr>wi_track =
        Some (Some \<lparr>wt_id = Some (Some tid), wt_name = Some tid,
                    wt_uri = Some (''spotify:track:'' @ tid), wt_duration_ms = Some 1000,
                    wt_explicit = None, wt_popularity = None, wt_preview_url = None,
                    wt_track_number = None, wt_disc_number = None, wt_artists = None,
                    wt_album = None, wt_external_urls = None, wt_external_ids = None\<rparr>),
      wi_added_at = None, wi_added_by = None\<rparr>"

definition sample_user :: wire_user where
  "sample_user =
     \<lparr>wu_id = Some ''alice'', wu_display_name = None, wu_email = None, wu_country = None,
      wu_followers = None, wu_uri = Some ''spotify:user:alice'', wu_external_urls = None,
      wu_images = None, wu_product = None\<rparr>"

definition sample_config :: SpotifyConfig where
  "sample_config =
     \<lparr>client_id = Some ''id'', client_secret = Some ''secret'',
      redirect_uri = ''http://127.0.0.1:8000/callback'',
      scopes = [''playlist-read-private'', ''playlist-read-collaborative'',
                ''user-read-private'', ''user-read-email'']\<rparr>"

text \<open>
  A service whose token file holds a token good until 5000, and one whose token has
  expired but can be refreshed; an environment where the clock stands at 1000, the user
  is \<open>alice\<close> with three playlists \<open>p1\<close>, \<open>p2\<close>, \<open>p3\<close> of one track each, the token
  endpoint grants \<open>T2\<close> for an hour, and nothing fails.
\<close>

definition sample_service :: state where
  "sample_service =
     new_service sample_config
       (Some \<lparr>td_access_token = Some ''T1'', td_refresh_token = Some ''R1'',
              td_expires_at = Some 5000\<rparr>)"

definition expired_service :: state where
  "expired_service =
     new_service sample_config
       (Some \<lparr>td_access_token = Some ''T0'', td_refresh_token = Some ''R1'',
              td_expires_at = Some 900\<rparr>)"

definition sample_env :: env where
  "sample_env =
     \<lparr>clock = (\<lambda>k. 1000),
      me_endpoint = (\<lambda>k. Inr (ok_response sample_user)),
      playlists_endpoint =
        (\<lambda>k lmt off. Inr (paged [sample_playlist ''p1'' ''alice'' False,
                                sample_playlist ''p2'' ''alice'' True,
                                sample_playlist ''p3'' ''bob'' True] lmt off)),
      playlist_endpoint = (\<lambda>k pid. Inr (ok_response (sample_playlist pid ''alice'' False))),
      tracks_endpoint = (\<lambda>k pid lmt off. Inr (paged [sample_item (pid @ ''-t1'')] lmt off)),
      token_endpoint =
        (\<lambda>k token_data. Inr (ok_response \<lparr>wk_access_token = Some ''T2'', wk_refresh_token = None,
                                             wk_expires_in = Some 3600\<rparr>)),
      port_busy = (\<lambda>k. False),
      random_state = (\<lambda>k. ''S1''),
      arrivals = (\<lambda>k. []),
      disk_error = (\<lambda>k. False),
      fromisoformat = (\<lambda>str. None)\<rparr>"


definition sample_profile :: UserProfile where
  "sample_profile =
     \<lparr>user_id = ''alice'', user_display_name = ''alice'', email = [], country = [],
      user_follower_count = 0, user_uri = ''spotify:user:alice'', user_external_urls = [],
      user_images = [], product = ''free''\<rparr>"

text \<open>The sample service as \<open>authenticate\<close> leaves it, its clock and request trace
  reset.\<close>

definition logged_in :: state where
  "logged_in = sample_service\<lparr>authenticated := True, user_profile := Some sample_profile\<rparr>"

text \<open>Variations of the environment: the track list of \<open>p2\<close> cannot be fetched; the user
  has no playlist; the user has 120 playlists; the profile cannot be fetched; the token
  endpoint refuses; the browser is redirected with \<open>error=access_denied\<close>; the browser
  is redirected with a code and a state that is not the one sent.\<close>

definition failing_env :: env where
  "failing_env =
     sample_env\<lparr>tracks_endpoint :=
       (\<lambda>k pid lmt off. if pid = ''p2'' then Inl (TransportError ''connection reset'')
                         else Inr (paged [sample_item (pid @ ''-t1'')] lmt off))\<rparr>"

definition empty_env :: env where
  "empty_env = sample_env\<lparr>playlists_endpoint := (\<lambda>k lmt off. Inr (paged [] lmt off))\<rparr>"

definition many_ids :: "string list" where
  "many_ids = map (\<lambda>i. replicate (Suc i) CHR ''a'') [0..<120]"

definition many_env :: env where
  "many_env =
     sample_env\<lparr>playlists_endpoint :=
       (\<lambda>k lmt off. Inr (paged (map (\<lambda>pid. sample_playlist pid ''alice'' False) many_ids) lmt off))\<rparr>"

definition no_profile_env :: env where
  "no_profile_env = sample_env\<lparr>me_endpoint := (\<lambda>k. Inl (TransportError ''connection reset''))\<rparr>"

definition refused_env :: env where
  "refused_env =
     sample_env\<lparr>token_endpoint :=
       (\<lambda>k token_data. Inr \<lparr>status = 400, retry_after = None, body_text = ''invalid_grant'',
                              body_json = Inl (ValueError ''invalid_grant'')\<rparr>)\<rparr>"

definition denied_env :: env where
  "denied_env = refused_env\<lparr>arrivals := (\<lambda>k. [[(''error'', [''access_denied''])]])\<rparr>"

definition forged_env :: env where
  "forged_env = sample_env\<lparr>arrivals := (\<lambda>k. [[(''code'', [''C1'']), (''state'', [''forged''])]])\<rparr>"

definition fresh_server :: http_server where
  "fresh_server =
     \<lparr>auth_code = None, auth_error = None, auth_state = None, callback_received = False\<rparr>"

text \<open>Names for the statements below: the sample service once the callback server is
  started and the authorization URL generated; the form \<open>_refresh_token\<close> posts; a state
  in which the service is authenticated and holds the sample token.\<close>

definition awaiting :: state where
  "awaiting = snd (get_authorization_url sample_env (snd (start_server sample_env sample_service)))"

definition refresh_form :: "state \<Rightarrow> form" where
  "refresh_form s =
     [(''grant_type'', Some ''refresh_token''),
      (''refresh_token'', refresh_token (token_manager s)),
      (''client_id'', client_id (config s)),
      (''client_secret'', client_secret (config s))]"

definition usable :: "state \<Rightarrow> bool" where
  "usable s \<longleftrightarrow> authenticated s \<and> token_manager s = token_manager logged_in"

text \<open>
  For the statements about the callback handler: the first value of a key in a parsed
  query string (\<open>query_params[k][0]\<close>), whether a request bears a \<open>code\<close>, and the
  queries \<open>parse_qs\<close> can return (it never lists a key with no value).
\<close>

definition first_value :: "query \<Rightarrow> string \<Rightarrow> string option" where
  "first_value q k = (case map_of q k of None \<Rightarrow> None | Some [] \<Rightarrow> None | Some (v # vs) \<Rightarrow> Some v)"

definition bears_code :: "query \<Rightarrow> bool" where
  "bears_code q = (map_of q ''code'' \<noteq> None)"

definition bears_error :: "query \<Rightarrow> bool" where
  "bears_error q = (map_of q ''error'' \<noteq> None)"

definition parsed_query :: "query \<Rightarrow> bool" where
  "parsed_query q =
     (map_of q ''code'' \<noteq> Some [] \<and> map_of q ''state'' \<noteq> Some [] \<and> map_of q ''error'' \<noteq> Some [])"

text \<open>The form \<open>exchange_code_for_tokens\<close> posts, and an environment where the token
  endpoint refuses to refresh but exchanges a code, and the browser is redirected with
  a code and the state that was sent.\<close>

definition exchange_form :: "string \<Rightarrow> state \<Rightarrow> form" where
  "exchange_form code s =
     [(''grant_type'', Some ''authorization_code''),
      (''code'', Some code),
      (''redirect_uri'', Some (redirect_uri (config s))),
      (''client_id'', client_id (config s)),
      (''client_secret'', client_secret (config s))]"

definition recover_env :: env where
  "recover_env =
     sample_env
       \<lparr>token_endpoint :=
          (\<lambda>k token_data.
             if map_of token_data ''grant_type'' = Some (Some ''refresh_token'')
             then Inr \<lparr>status = 400, retry_after = None, body_text = ''invalid_grant'',
                       body_json = Inl (ValueError ''invalid_grant'')\<rparr>
             else Inr (ok_response \<lparr>wk_access_token = Some ''T3'', wk_refresh_token = Some ''R3'',
                                      wk_expires_in = Some 3600\<rparr>)),
        arrivals := (\<lambda>k. [[(''code'', [''C1'']), (''state'', [''S1''])]])\<rparr>"

section \<open>Lemmas about the embedding\<close>

lemmas sample_simps = sample_service_def expired_service_def new_service_def sample_config_def
  sample_env_def refused_env_def denied_env_def forged_env_def ok_response_def logged_in_def
  sample_profile_def failing_env_def

lemma ebind_Inr: "ebind m f = Inr y \<longleftrightarrow> (\<exists>x. m = Inr x \<and> f x = Inr y)"
  by (cases m) auto

lemma key_Inr: "key k v = Inr x \<longleftrightarrow> v = Some x"
  by (cases v) auto

lemma map_exn_Inr: "map_exn f xs = Inr ys \<longleftrightarrow> list_all2 (\<lambda>x y. f x = Inr y) xs ys"
proof (induction xs arbitrary: ys)
  case Nil
  show ?case by auto
next
  case (Cons x xs)
  show ?case by (cases ys) (auto simp: ebind_Inr Cons.IH)
qed

lemma map_exn_length: "map_exn f xs = Inr ys \<Longrightarrow> length ys = length xs"
  by (simp add: map_exn_Inr list_all2_lengthD)

lemma map_exn_take: "map_exn f xs = Inr ys \<Longrightarrow> map_exn f (take n xs) = Inr (take n ys)"
  by (simp add: map_exn_Inr list_all2_takeI)

lemma map_exn_drop: "map_exn f xs = Inr ys \<Longrightarrow> map_exn f (drop n xs) = Inr (drop n ys)"
  by (simp add: map_exn_Inr list_all2_dropI)

lemma map_exn_map:
  "(\<And>x. x \<in> set xs \<Longrightarrow> f (g x) = Inr (h x)) \<Longrightarrow> map_exn f (map g xs) = Inr (map h xs)"
  by (induction xs) auto

lemma valid_token_truthy:
  "is_token_valid (token_manager s) now \<Longrightarrow> truthy_str (get_access_token s now)"
  by (simp add: get_access_token_def is_token_valid_def split: if_splits)

lemma make_request_ok:
  assumes "is_token_valid (token_manager s) (clock e (ticks s))"
    and "transport (ticks s) = Inr (ok_response x)"
  shows "make_request e m ep ps transport s =
           (Inr x, s\<lparr>ticks := ticks s + 1, api_log := api_log s @ [Request m ep ps]\<rparr>)"
  using assms valid_token_truthy[OF assms(1)]
  by (simp add: make_request_def Let_def tick_def ok_response_def)

lemma parse_playlist_summary_profile:
  "user_profile s' = user_profile s \<Longrightarrow> parse_playlist_summary s' = parse_playlist_summary s"
  by (rule ext) (simp add: parse_playlist_summary_def)

lemma ceil_div_le: "0 < P \<Longrightarrow> ((M + P - 1) div P \<le> k) = (M \<le> k * (P::nat))"
proof -
  assume P: "0 < P"
  have "((M + P - 1) div P \<le> k) = ((M + P - 1) div P < Suc k)" by auto
  also have "\<dots> = (M + P - 1 < Suc k * P)" using P by (simp add: div_less_iff_less_mult)
  also have "\<dots> = (M \<le> k * P)" using P by auto
  finally show ?thesis .
qed

lemma take_min_length: "take a xs = take (min a (length xs)) xs"
  by (simp add: min_def)

lemma parse_sample_playlist:
  "\<exists>p. parse_playlist_summary s (sample_playlist pid uid c) = Inr p \<and> playlist_id p = pid"
  by (simp add: parse_playlist_summary_def sample_playlist_def)

lemma valid_logged_in: "is_token_valid (token_manager logged_in) 1000"
  by (simp add: is_token_valid_def sample_simps)

lemma serve_append: "serve (qs @ rs) srv = serve rs (serve qs srv)"
  by (induction qs arbitrary: srv) auto

lemma wait_loop_frame:
  assumes "wait_loop e start timeout s = Some y"
  shows "\<exists>srv k. snd y = s\<lparr>server := srv, ticks := k\<rparr>"
proof (rule wait_loop.raw_induct
    [where P = "\<lambda>e start timeout s y. \<exists>srv k. snd y = s\<lparr>server := srv, ticks := k\<rparr>", OF _ assms])
  fix wl e start timeout s y
  assume IH: "\<And>start timeout s b y. wl start timeout s b = Some y \<Longrightarrow>
                \<exists>srv k. snd y = b\<lparr>server := srv, ticks := k\<rparr>"
    and step: "(case server s of
      None \<Rightarrow> Some (Inl (AttributeError ''callback_received''), s)
      | Some srv \<Rightarrow>
          let srv1 = serve (arrivals e (ticks s)) srv;
              s1 = tick s\<lparr>server := Some srv1\<rparr>
          in if callback_received srv1 then Some (Inr (), s1)
             else if timeout < clock e (ticks s1) - start
                  then Some (Inl (TimeoutError ''OAuth callback timeout''), tick s1)
                  else wl e start timeout (tick s1)) = Some y"
  show "\<exists>srv k. snd y = s\<lparr>server := srv, ticks := k\<rparr>"
  proof (cases "server s")
    case None
    then have "y = (Inl (AttributeError ''callback_received''), s)" using step by simp
    then have "snd y = s\<lparr>server := server s, ticks := ticks s\<rparr>" by simp
    then show ?thesis by blast
  next
    case (Some srv)
    let ?srv1 = "serve (arrivals e (ticks s)) srv"
    let ?s1 = "tick s\<lparr>server := Some ?srv1\<rparr>"
    consider (a) "callback_received ?srv1"
      | (b) "\<not> callback_received ?srv1" "timeout < clock e (ticks ?s1) - start"
      | (c) "\<not> callback_received ?srv1" "\<not> timeout < clock e (ticks ?s1) - start"
      by blast
    then show ?thesis
    proof cases
      case a
      then have "snd y = s\<lparr>server := Some ?srv1, ticks := ticks s + 1\<rparr>"
        using step Some by (auto simp: Let_def tick_def)
      then show ?thesis by blast
    next
      case b
      then have "snd y = s\<lparr>server := Some ?srv1, ticks := ticks s + 2\<rparr>"
        using step Some by (auto simp: Let_def tick_def)
      then show ?thesis by blast
    next
      case c
      then have "wl e start timeout (tick ?s1) = Some y"
        using step Some by (simp add: Let_def)
      from IH[OF this] obtain srv' k where "snd y = (tick ?s1)\<lparr>server := srv', ticks := k\<rparr>"
        by blast
      then have "snd y = s\<lparr>server := srv', ticks := k\<rparr>" by (simp add: tick_def)
      then show ?thesis by blast
    qed
  qed
qed

lemma wait_loop_expected_state:
  assumes "wait_loop e start timeout s = Some (r, s1)"
  shows "expected_state s1 = expected_state s" and "token_log s1 = token_log s"
    and "reported s1 = reported s" and "token_manager s1 = token_manager s"
  using wait_loop_frame[OF assms] by auto

text \<open>The sample run of \<open>SpotifyService.authenticate\<close>: the stored token is valid, so no
  flow is started, and the profile is loaded with one request.\<close>

lemma service_authenticate_sample:
  "service_authenticate sample_env sample_service =
     Some (True, logged_in\<lparr>ticks := 2, api_log := [Request ''GET'' ''/me'' []]\<rparr>)"
  by (simp add: service_authenticate_def is_configured_def authenticator_authenticate_def
      is_token_valid_def get_user_profile_def make_request_def get_access_token_def tick_def
      Let_def parse_user_profile_def sample_user_def sample_simps)

section \<open>TokenManager.is\_token\_valid\<close>

text \<open>
  Claim C3, as stated, at two token stores: with the empty string stored as access token
  and an expiry of 2000, at time 1000 a token is stored and \<open>now < expires_at - 300\<close>,
  and \<open>is_token_valid\<close> is false; with the token \<open>T\<close> and an expiry of 0, at time -301
  (a clock before the epoch) again \<open>now < expires_at - 300\<close> and \<open>is_token_valid\<close> is
  false. The source tests \<open>not self.access_token or not self.expires_at\<close>, which the
  empty string and zero satisfy.
\<close>

theorem is_token_valid_counterexample:
  "(1000::real) < 2000 - 300 \<and>
   \<not> is_token_valid \<lparr>access_token = Some [], refresh_token = None, expires_at = Some 2000, stored = None\<rparr> 1000 \<and>
   (- 301::real) < 0 - 300 \<and>
   \<not> is_token_valid \<lparr>access_token = Some ''T'', refresh_token = None, expires_at = Some 0, stored = None\<rparr> (- 301)"
  by (simp add: is_token_valid_def)

text \<open>
  Claim C3, amended: for every token store and every time \<open>now\<close>, \<open>is_token_valid\<close> is
  true if and only if an access token is stored and is not the empty string, an expiry is
  stored and is not zero, and \<open>now < expires_at - 300\<close>; in every other state it is false.
\<close>

theorem is_token_valid_iff:
  "is_token_valid tm now \<longleftrightarrow>
     (\<exists>tok e. access_token tm = Some tok \<and> tok \<noteq> [] \<and> expires_at tm = Some e \<and> e \<noteq> 0 \<and> now < e - 300)"
  by (cases "access_token tm"; cases "expires_at tm") (auto simp: is_token_valid_def)

theorem is_token_valid_iff_witness:
  "is_token_valid (token_manager sample_service) 1000 \<and>
   \<not> is_token_valid (token_manager sample_service) 4700 \<and>
   \<not> is_token_valid (token_manager (new_service sample_config None)) 1000"
  using is_token_valid_iff[of "token_manager sample_service" 1000]
    is_token_valid_iff[of "token_manager sample_service" 4700]
    is_token_valid_iff[of "token_manager (new_service sample_config None)" 1000]
  by (simp add: sample_service_def new_service_def)

section \<open>Classification of a playlist\<close>

lemma parse_playlist_summary_type_aux:
  assumes "parse_playlist_summary s data = Inr p"
  shows "\<exists>ow oid. wp_owner data = Some ow \<and> wo_id ow = Some oid \<and>
     playlist_type p =
       (if Some oid = map_option user_id (user_profile s)
        then (if wp_collaborative data = Some True then COLLABORATIVE else OWNED)
        else FOLLOWED)"
proof -
  from assms obtain ow oid rest where ow: "wp_owner data = Some ow" and oid: "wo_id ow = Some oid"
    and p: "p = rest\<lparr>playlist_type := (if Some oid = (case user_profile s of None \<Rightarrow> None | Some u \<Rightarrow> Some (user_id u))
                  then (if get_or (wp_collaborative data) False then COLLABORATIVE else OWNED)
                  else FOLLOWED)\<rparr>"
    unfolding parse_playlist_summary_def Let_def
    by (simp only: ebind_Inr key_Inr) (elim exE conjE, simp, metis Playlist.update_convs(5))
  show ?thesis
    using ow oid p by (cases "wp_collaborative data"; cases "user_profile s") auto
qed

text \<open>
  Claim C5: for every playlist wire record that parses and every authenticated current
  user \<open>u\<close>, with \<open>oid\<close> the record's \<open>owner.id\<close>: the type of the parsed playlist is
  \<open>COLLABORATIVE\<close> when \<open>oid\<close> is the user's id and the \<open>collaborative\<close> flag is true,
  \<open>OWNED\<close> when \<open>oid\<close> is the user's id and the flag is false (or absent), and \<open>FOLLOWED\<close>
  when \<open>oid\<close> differs from the user's id, whatever the flag.
\<close>

theorem parse_playlist_summary_type:
  assumes "parse_playlist_summary s data = Inr p"
    and "user_profile s = Some u"
    and "wp_owner data = Some ow" and "wo_id ow = Some oid"
  shows "playlist_type p =
       (if oid = user_id u
        then (if wp_collaborative data = Some True then COLLABORATIVE else OWNED)
        else FOLLOWED)"
  using parse_playlist_summary_type_aux[OF assms(1)] assms(2-) by auto

theorem parse_playlist_summary_type_witness:
  "map_sum id playlist_type (parse_playlist_summary logged_in (sample_playlist ''p1'' ''alice'' True))
     = Inr COLLABORATIVE \<and>
   map_sum id playlist_type (parse_playlist_summary logged_in (sample_playlist ''p2'' ''alice'' False))
     = Inr OWNED \<and>
   map_sum id playlist_type (parse_playlist_summary logged_in (sample_playlist ''p3'' ''bob'' True))
     = Inr FOLLOWED"
proof -
  have prof: "user_profile logged_in = Some sample_profile"
    by (simp add: logged_in_def)
  have inst: "map_sum id playlist_type (parse_playlist_summary logged_in (sample_playlist pid uid c)) =
      Inr (if uid = ''alice'' then (if c then COLLABORATIVE else OWNED) else FOLLOWED)"
    for pid uid c
  proof -
    obtain p where p: "parse_playlist_summary logged_in (sample_playlist pid uid c) = Inr p"
      using parse_sample_playlist by blast
    have "playlist_type p =
       (if uid = user_id sample_profile
        then (if wp_collaborative (sample_playlist pid uid c) = Some True then COLLABORATIVE else OWNED)
        else FOLLOWED)"
    proof (rule parse_playlist_summary_type[OF p prof])
      show "wp_owner (sample_playlist pid uid c) =
              Some \<lparr>wo_id = Some uid, wo_display_name = Some uid,
                     wo_uri = Some (''spotify:user:'' @ uid), wo_external_urls = None\<rparr>"
        by (simp add: sample_playlist_def)
      show "wo_id \<lparr>wo_id = Some uid, wo_display_name = Some uid,
                    wo_uri = Some (''spotify:user:'' @ uid), wo_external_urls = None\<rparr> = Some uid"
        by simp
    qed
    then show ?thesis using p by (simp add: sample_profile_def sample_playlist_def)
  qed
  show ?thesis by (simp add: inst)
qed

text \<open>
  Claim C9: for every playlist wire record parsed while no profile is loaded
  (\<open>_user_profile\<close> is \<open>None\<close>, as it stays when the profile request after a successful
  authentication raises), the type of the parsed playlist is \<open>FOLLOWED\<close>, also when the
  playlist belongs to the authenticated user. The instance below runs
  \<open>SpotifyService.authenticate\<close> for \<open>alice\<close> with a failing profile request and parses a
  playlist that \<open>alice\<close> owns.
\<close>

theorem parse_playlist_summary_no_profile:
  assumes "user_profile s = None" and "parse_playlist_summary s data = Inr p"
  shows "playlist_type p = FOLLOWED"
  using parse_playlist_summary_type_aux[OF assms(2)] assms(1) by auto

lemma service_authenticate_no_profile:
  "\<exists>s'. service_authenticate no_profile_env sample_service = Some (True, s') \<and>
     authenticated s' \<and> user_profile s' = None"
  by (simp add: service_authenticate_def is_configured_def authenticator_authenticate_def
      is_token_valid_def get_user_profile_def make_request_def get_access_token_def tick_def
      Let_def no_profile_env_def sample_simps)

theorem parse_playlist_summary_no_profile_witness:
  "(case service_authenticate no_profile_env sample_service of
      Some (ok, s') \<Rightarrow>
        ok \<and> authenticated s' \<and> user_profile s' = None \<and>
        map_sum id playlist_type (parse_playlist_summary s' (sample_playlist ''p1'' ''alice'' False))
          = Inr FOLLOWED
    | None \<Rightarrow> False)"
proof -
  obtain s' where s': "service_authenticate no_profile_env sample_service = Some (True, s')"
    "authenticated s'" "user_profile s' = None"
    using service_authenticate_no_profile by blast
  obtain p where p: "parse_playlist_summary s' (sample_playlist ''p1'' ''alice'' False) = Inr p"
    using parse_sample_playlist by blast
  have "playlist_type p = FOLLOWED"
    by (rule parse_playlist_summary_no_profile[OF s'(3) p])
  then show ?thesis using s' p by simp
qed

section \<open>Calls before authentication\<close>

text \<open>The flag \<open>_authenticated\<close> is false after the constructor, no function of the
  authenticator changes it, and a failed \<open>SpotifyService.authenticate\<close> leaves it as it
  was.\<close>

lemma new_service_authenticated: "\<not> authenticated (new_service cfg file)"
  by (simp add: new_service_def)

lemma start_server_authenticated: "authenticated (snd (start_server e s)) = authenticated s"
  by (simp add: start_server_def tick_def)

lemma get_authorization_url_authenticated:
  "authenticated (snd (get_authorization_url e s)) = authenticated s"
  by (simp add: get_authorization_url_def Let_def tick_def)

lemma wait_for_callback_authenticated:
  assumes "wait_for_callback e timeout s = Some (r, s')"
  shows "authenticated s' = authenticated s"
proof (cases "server s")
  case None
  then show ?thesis using assms by (simp add: wait_for_callback_def)
next
  case (Some srv0)
  then obtain y where w: "wait_loop e (clock e (ticks s)) timeout (tick s) = Some y"
    using assms by (cases "wait_loop e (clock e (ticks s)) timeout (tick s)")
      (simp_all add: wait_for_callback_def)
  have "s' = snd y"
    using assms Some w
    by (cases y; cases "fst y"; cases "server (snd y)")
       (auto simp: wait_for_callback_def split: if_splits)
  then show ?thesis using wait_loop_frame[OF w] by (auto simp: tick_def)
qed

lemma post_token_authenticated:
  "post_token e f msg s = (r, s') \<Longrightarrow> authenticated s' = authenticated s"
  by (auto simp: post_token_def Let_def tick_def split: sum.splits if_splits)

lemma save_tokens_authenticated:
  "save_tokens e a r ei s = (x, s') \<Longrightarrow> authenticated s' = authenticated s"
  by (auto simp: save_tokens_def Let_def tick_def split: if_splits)

lemma refresh_authenticated:
  "authenticated (snd (authenticator_refresh_token e s)) = authenticated s"
proof -
  obtain r1 s1 where p: "refresh_access_token e (refresh_token (token_manager s)) s = (r1, s1)"
    by (cases "refresh_access_token e (refresh_token (token_manager s)) s")
  have a1: "authenticated s1 = authenticated s"
    using p by (auto simp: refresh_access_token_def dest: post_token_authenticated)
  show ?thesis
  proof (cases r1)
    case (Inl err)
    then show ?thesis using p a1 by (simp add: authenticator_refresh_token_def)
  next
    case (Inr resp)
    show ?thesis
    proof (cases "ebind (key ''access_token'' (wk_access_token resp)) (\<lambda>a.
                ebind (key ''expires_in'' (wk_expires_in resp)) (\<lambda>ei. Inr (a, ei)))")
      case (Inl err)
      then show ?thesis using p a1 Inr by (simp add: authenticator_refresh_token_def)
    next
      case (Inr aei)
      obtain a ei where aei: "aei = (a, ei)" by (cases aei)
      let ?rt = "case wk_refresh_token resp of None \<Rightarrow> refresh_token (token_manager s1) | Some r \<Rightarrow> Some r"
      show ?thesis
        using p \<open>r1 = Inr resp\<close> Inr aei a1
        by (cases "save_tokens e a ?rt ei s1"; cases "fst (save_tokens e a ?rt ei s1)")
           (auto simp: authenticator_refresh_token_def dest: save_tokens_authenticated)
    qed
  qed
qed

lemma new_authentication_authenticated:
  assumes "new_authentication e s = Some (r, s')"
  shows "authenticated s' = authenticated s"
proof -
  obtain r1 s1 where t: "new_authentication_try e s = Some (r1, s1)"
    using assms by (cases "new_authentication_try e s") (auto simp: new_authentication_def)
  have s': "authenticated s' = authenticated s1"
    using assms t by (cases r1) (auto simp: new_authentication_def stop_server_def split: option.splits)
  have "authenticated s1 = authenticated s"
  proof (cases "start_server e s")
    case (Pair r0 s0)
    have a0: "authenticated s0 = authenticated s"
      using start_server_authenticated[of e s] Pair by simp
    show ?thesis
    proof (cases r0)
      case (Inl err)
      then show ?thesis using t Pair a0 by (simp add: new_authentication_try_def)
    next
      case (Inr u)
      obtain url s2 where g: "get_authorization_url e s0 = (url, s2)"
        by (cases "get_authorization_url e s0")
      have a2: "authenticated s2 = authenticated s"
        using get_authorization_url_authenticated[of e s0] g a0 by simp
      let ?s2 = "s2\<lparr>browser_log := browser_log s2 @ [url]\<rparr>"
      obtain r3 s3 where w: "wait_for_callback e 300 ?s2 = Some (r3, s3)"
        using t Pair Inr g
        by (cases "wait_for_callback e 300 ?s2") (auto simp: new_authentication_try_def)
      have a3: "authenticated s3 = authenticated s"
        using wait_for_callback_authenticated[OF w] a2 by simp
      show ?thesis
      proof (cases r3)
        case (Inl err)
        then show ?thesis using t Pair \<open>r0 = Inr u\<close> g w a3 by (simp add: new_authentication_try_def)
      next
        case (Inr code)
        show ?thesis
        proof (cases "truthy_str code")
          case False
          then show ?thesis
            using t Pair \<open>r0 = Inr u\<close> g w a3 Inr by (simp add: new_authentication_try_def)
        next
          case True
          obtain r4 s4 where x: "exchange_code_for_tokens e (get_or code []) s3 = (r4, s4)"
            by (cases "exchange_code_for_tokens e (get_or code []) s3")
          have a4: "authenticated s4 = authenticated s"
            using x a3 by (auto simp: exchange_code_for_tokens_def dest: post_token_authenticated)
          show ?thesis
            using t Pair \<open>r0 = Inr u\<close> g w Inr True x a4
            by (cases r4)
               (auto simp: new_authentication_try_def split: sum.splits prod.splits
                  dest: save_tokens_authenticated)
        qed
      qed
    qed
  qed
  then show ?thesis using s' by simp
qed

lemma authenticator_authenticate_authenticated:
  assumes "authenticator_authenticate e s = Some (r, s')"
  shows "authenticated s' = authenticated s"
proof -
  have r: "authenticated (snd (authenticator_refresh_token e (tick s))) = authenticated s"
    using refresh_authenticated[of e "tick s"] by (simp add: tick_def)
  show ?thesis
    using assms r new_authentication_authenticated[of e _ r s']
    by (cases "authenticator_refresh_token e (tick s)")
       (auto simp: authenticator_authenticate_def tick_def split: if_splits bool.splits)
qed

lemma service_authenticate_failure:
  assumes "service_authenticate e s = Some (False, s')"
  shows "authenticated s' = authenticated s"
  using assms authenticator_authenticate_authenticated[of e s False s']
  by (cases "authenticator_authenticate e s")
     (auto simp: service_authenticate_def split: if_splits bool.splits prod.splits sum.splits)

text \<open>
  Claim C10: while \<open>_authenticated\<close> is false (it is false after the constructor and
  only a successful \<open>authenticate\<close> sets it), each of \<open>get_user_profile\<close>,
  \<open>get_user_playlists\<close>, \<open>get_playlist_details\<close> and \<open>get_playlist_tracks\<close> raises
  \<open>AuthenticationError\<close> and leaves the whole state as it was: no request is added to
  \<open>api_log\<close>, the clock is not read, no attribute of the service changes.
\<close>

theorem not_authenticated_raises:
  assumes "\<not> authenticated s"
  shows "get_user_profile e s = (Inl (AuthenticationError ''Not authenticated''), s) \<and>
     get_user_playlists e limit s = Some (Inl (AuthenticationError ''Not authenticated''), s) \<and>
     get_playlist_details e pid s = Some (Inl (AuthenticationError ''Not authenticated''), s) \<and>
     get_playlist_tracks e pid s = Some (Inl (AuthenticationError ''Not authenticated''), s)"
  using assms
  by (simp add: get_user_profile_def get_user_playlists_def get_playlist_details_def
      get_playlist_tracks_def)

theorem not_authenticated_raises_witness:
  "get_user_profile sample_env sample_service =
     (Inl (AuthenticationError ''Not authenticated''), sample_service) \<and>
   get_user_playlists sample_env (Some 10) sample_service =
     Some (Inl (AuthenticationError ''Not authenticated''), sample_service) \<and>
   get_playlist_details sample_env ''p1'' sample_service =
     Some (Inl (AuthenticationError ''Not authenticated''), sample_service) \<and>
   get_playlist_tracks sample_env ''p1'' sample_service =
     Some (Inl (AuthenticationError ''Not authenticated''), sample_service)"
proof -
  have "\<not> authenticated sample_service"
    by (simp add: sample_service_def new_service_def)
  then show ?thesis by (rule not_authenticated_raises)
qed

section \<open>The playlist pagination loop\<close>

lemma playlists_loop_paged:
  assumes served: "\<forall>k lmt off. playlists_endpoint e k lmt off = Inr (paged coll lmt off)"
    and valid: "\<forall>k. is_token_valid (token_manager s) (clock e k)"
    and parsed: "map_exn (parse_playlist_summary s) coll = Inr ps"
    and P: "0 < P"
    and L: "truthy_int limit \<Longrightarrow> 0 < get_or limit 0"
    and M: "M = (if truthy_int limit then min (length coll) (nat (get_or limit 0)) else length coll)"
    and n: "n = max 1 ((M + P - 1) div P)"
  shows "i < n \<Longrightarrow> token_manager s' = token_manager s \<Longrightarrow> user_profile s' = user_profile s \<Longrightarrow>
     playlists_loop e (int P) limit (take (i * P) ps) (int (i * P)) s' =
       Some (Inr (take (n * P) ps),
             s'\<lparr>ticks := ticks s' + (n - i),
                api_log := api_log s' @ map (\<lambda>j. page_request (int P) (int (j * P))) [i..<n]\<rparr>)"
proof (induction "n - i" arbitrary: i s')
  case 0
  then show ?case by simp
next
  case (Suc d)
  let ?s1 = "s'\<lparr>ticks := ticks s' + 1,
               api_log := api_log s' @ [page_request (int P) (int (i * P))]\<rparr>"
  have len: "length ps = length coll" using parsed by (rule map_exn_length)
  have req: "make_request e ''GET'' ''/me/playlists''
               [(''limit'', PInt (int P)), (''offset'', PInt (int (i * P)))]
               (\<lambda>k. playlists_endpoint e k (int P) (int (i * P))) s' =
             (Inr \<lparr>pg_items = Some (take P (drop (i * P) coll)),
                   pg_next = (if int (i * P) + int P < int (length coll) then Some ''next'' else None)\<rparr>, ?s1)"
    using valid served Suc.prems
    by (subst make_request_ok[where x = "\<lparr>pg_items = Some (take P (drop (i * P) coll)),
                   pg_next = (if int (i * P) + int P < int (length coll) then Some ''next'' else None)\<rparr>"])
       (simp_all add: paged_def page_request_def nat_mult_distrib)
  have batch: "map_exn (parse_playlist_summary ?s1) (take P (drop (i * P) coll)) =
                 Inr (take P (drop (i * P) ps))"
  proof -
    have "parse_playlist_summary ?s1 = parse_playlist_summary s"
      by (rule parse_playlist_summary_profile) (simp add: Suc.prems)
    then show ?thesis
      using parsed by (simp only: map_exn_take map_exn_drop)
  qed
  have acc: "take (i * P) ps @ take P (drop (i * P) ps) = take (Suc i * P) ps"
    by (simp only: mult_Suc add.commute[of P "i * P"] take_add)
  have stop: "(\<not> truthy_str (if int (i * P) + int P < int (length coll) then Some ''next'' else None) \<or>
               (truthy_int limit \<and> int (length (take (Suc i * P) ps)) \<ge> get_or limit 0))
              = (Suc i \<ge> n)"
  proof -
    have "(Suc i \<ge> n) = ((M + P - 1) div P \<le> Suc i)"
      unfolding n by auto
    then have "(Suc i \<ge> n) = (M \<le> Suc i * P)"
      by (simp only: ceil_div_le[OF P])
    moreover have "int (i * P) + int P = int (Suc i * P)"
      by simp
    then have "(int (i * P) + int P < int (length coll)) = (Suc i * P < length coll)"
      by (simp only: of_nat_less_iff)
    then have "(\<not> truthy_str (if int (i * P) + int P < int (length coll) then Some ''next'' else None))
        = (length coll \<le> Suc i * P)"
      by (simp only: split: if_splits) auto
    moreover have "length (take (Suc i * P) ps) = min (length coll) (Suc i * P)"
      by (simp only: length_take len)
    then have "truthy_int limit \<Longrightarrow> (int (length (take (Suc i * P) ps)) \<ge> get_or limit 0)
        = (nat (get_or limit 0) \<le> min (length coll) (Suc i * P))"
      using L by (simp only:) linarith
    ultimately show ?thesis
      unfolding M by (cases "truthy_int limit") auto
  qed
  show ?case
  proof (cases "Suc i \<ge> n")
    case True
    then have ni: "n = Suc i" using Suc.prems by simp
    show ?thesis
      apply (subst playlists_loop.simps)
      apply (simp only: req prod.case sum.case wire_page.select_convs key.simps ebind.simps batch acc stop True if_True)
      apply (simp add: ni)
      done
  next
    case False
    then have lt: "Suc i < n" by simp
    have d: "d = n - Suc i" using Suc.hyps(2) by simp
    have IH: "playlists_loop e (int P) limit (take (Suc i * P) ps) (int (Suc i * P)) ?s1 =
       Some (Inr (take (n * P) ps),
             ?s1\<lparr>ticks := ticks ?s1 + (n - Suc i),
                api_log := api_log ?s1 @ map (\<lambda>j. page_request (int P) (int (j * P))) [Suc i..<n]\<rparr>)"
      using Suc.hyps(1)[OF d lt, of ?s1] Suc.prems by simp
    have off: "int (i * P) + int P = int (Suc i * P)" by (simp add: add.commute)
    show ?thesis
      apply (subst playlists_loop.simps)
      apply (simp only: req prod.case sum.case wire_page.select_convs key.simps ebind.simps batch acc stop False if_False)
      apply (simp only: off IH)
      using lt apply (simp add: upt_conv_Cons)
      done
  qed
qed

text \<open>
  Claim C4, as stated, at two inputs. For an empty collection (\<open>N = 0\<close>, page size 50)
  the loop sends one request, at offset 0, while \<open>ceil(0/50) = 0\<close>. With the limit 0
  given and three playlists served, all three are returned: \<open>if limit\<close> treats 0 as no
  limit.
\<close>

theorem playlist_summaries_counterexample:
  "(case playlist_summaries empty_env None logged_in of
      Some (Inr ps, s') \<Rightarrow> ps = [] \<and> api_log s' = [page_request 50 0]
    | _ \<Rightarrow> False) \<and>
   (0 + 50 - 1) div 50 = (0::nat) \<and>
   (case playlist_summaries sample_env (Some 0) logged_in of
      Some (Inr ps, s') \<Rightarrow> map playlist_id ps = [''p1'', ''p2'', ''p3'']
    | _ \<Rightarrow> False)"
proof -
  have a: "playlist_summaries empty_env None logged_in =
     Some (Inr [], logged_in\<lparr>ticks := 1, api_log := [page_request 50 0]\<rparr>)"
    apply (simp add: playlist_summaries_def)
    apply (subst playlists_loop.simps)
    apply (simp add: make_request_def Let_def tick_def get_access_token_def is_token_valid_def
      sample_simps empty_env_def paged_def page_request_def)
    done
  have b: "\<exists>q1 q2 q3 s0. playlist_summaries sample_env (Some 0) logged_in = Some (Inr [q1, q2, q3], s0) \<and>
     playlist_id q1 = ''p1'' \<and> playlist_id q2 = ''p2'' \<and> playlist_id q3 = ''p3''"
    apply (simp add: playlist_summaries_def)
    apply (subst playlists_loop.simps)
    apply (simp add: make_request_def Let_def tick_def get_access_token_def is_token_valid_def
      sample_simps paged_def parse_playlist_summary_def sample_playlist_def)
    done
  show ?thesis using a b by auto
qed

text \<open>
  Claim C4, amended. Let a collection of \<open>N\<close> wire records, all of which parse, be served
  in pages, the token be valid throughout, and the limit be absent or a number
  \<open>L \<ge> 0\<close>. With \<open>P = min(50, L)\<close> and \<open>M = min(N, L)\<close> for a limit \<open>L > 0\<close>, and
  \<open>P = 50\<close> and \<open>M = N\<close> for no limit or the limit 0, the loop sends exactly
  \<open>n = max(1, ceil(M/P))\<close> requests, at the offsets \<open>0, P, 2P, \<dots>\<close>, each asking for
  \<open>P\<close> items, and \<open>get_user_playlists\<close> goes on with the first \<open>M\<close> items in their
  original order: all \<open>N\<close> without a limit, at most \<open>L\<close> with a limit \<open>L > 0\<close>, for which
  no request is sent once \<open>L\<close> items are there. An empty collection costs one request.
\<close>

theorem playlist_summaries_paged:
  assumes served: "\<forall>k lmt off. playlists_endpoint e k lmt off = Inr (paged coll lmt off)"
    and valid: "\<forall>k. is_token_valid (token_manager s) (clock e k)"
    and parsed: "map_exn (parse_playlist_summary s) coll = Inr ps"
    and lim: "limit = None \<or> limit = Some L \<and> 0 \<le> L"
    and P: "P = (if truthy_int limit then min 50 (nat L) else 50)"
    and M: "M = (if truthy_int limit then min (length coll) (nat L) else length coll)"
    and n: "n = max 1 ((M + P - 1) div P)"
  shows "playlist_summaries e limit s =
           Some (Inr (take M ps),
                 s\<lparr>ticks := ticks s + n,
                   api_log := api_log s @ map (\<lambda>j. page_request (int P) (int (j * P))) [0..<n]\<rparr>)"
proof -
  have L: "truthy_int limit \<Longrightarrow> limit = Some L \<and> 0 < L"
    using lim by auto
  have Ppos: "0 < P" using P L by auto
  have b: "(if truthy_int limit then min 50 (get_or limit 0) else 50) = int P"
    using P L by auto
  have M': "M = (if truthy_int limit then min (length coll) (nat (get_or limit 0)) else length coll)"
    using M L by auto
  have n0: "0 < n" using n by simp
  have Lpos: "truthy_int limit \<Longrightarrow> 0 < get_or limit 0" using L by auto
  have loop: "playlists_loop e (int P) limit [] 0 s =
       Some (Inr (take (n * P) ps),
             s\<lparr>ticks := ticks s + n,
                api_log := api_log s @ map (\<lambda>j. page_request (int P) (int (j * P))) [0..<n]\<rparr>)"
    using playlists_loop_paged[OF served valid parsed Ppos Lpos M' n n0, of s] by simp
  have len: "length ps = length coll" using parsed by (rule map_exn_length)
  have "(M + P - 1) div P \<le> n" using n by simp
  then have cover: "M \<le> n * P" by (simp only: ceil_div_le[OF Ppos])
  have res: "(if truthy_int limit then slice_to (take (n * P) ps) (get_or limit 0) else take (n * P) ps)
               = take M ps"
  proof (cases "truthy_int limit")
    case True
    then have l: "limit = Some L" "0 < L" using L by auto
    have "take (nat L) (take (n * P) ps) = take (min (min (nat L) (n * P)) (length ps)) ps"
      by (simp only: take_take) (rule take_min_length)
    also have "min (min (nat L) (n * P)) (length ps) = min M (length ps)"
      using cover True len unfolding M by auto
    also have "take (min M (length ps)) ps = take M ps"
      by (rule take_min_length[symmetric])
    finally show ?thesis using True l by (simp add: slice_to_def)
  next
    case False
    then have "length ps \<le> n * P" using cover len unfolding M by simp
    then show ?thesis using False len unfolding M by simp
  qed
  show ?thesis
    unfolding playlist_summaries_def
    by (simp only: b loop option.case prod.case sum.case res)
qed

theorem playlist_summaries_paged_witness:
  "(case playlist_summaries many_env None logged_in of
      Some (Inr ps, s') \<Rightarrow>
        map playlist_id ps = many_ids \<and> length ps = 120 \<and>
        api_log s' = [page_request 50 0, page_request 50 50, page_request 50 100]
    | _ \<Rightarrow> False) \<and>
   (case playlist_summaries many_env (Some 60) logged_in of
      Some (Inr ps, s') \<Rightarrow>
        map playlist_id ps = take 60 many_ids \<and> length ps = 60 \<and>
        api_log s' = [page_request 50 0, page_request 50 50]
    | _ \<Rightarrow> False) \<and>
   (case playlist_summaries many_env (Some 2) logged_in of
      Some (Inr ps, s') \<Rightarrow>
        map playlist_id ps = take 2 many_ids \<and> length ps = 2 \<and>
        api_log s' = [page_request 2 0]
    | _ \<Rightarrow> False)"
proof -
  let ?coll = "map (\<lambda>pid. sample_playlist pid ''alice'' False) many_ids"
  let ?h = "\<lambda>pid. projr (parse_playlist_summary logged_in (sample_playlist pid ''alice'' False))"
  have h: "parse_playlist_summary logged_in (sample_playlist pid ''alice'' False) = Inr (?h pid)"
      "playlist_id (?h pid) = pid" for pid
    using parse_sample_playlist[of logged_in pid "''alice''" False] by auto
  have served: "\<forall>k lmt off. playlists_endpoint many_env k lmt off = Inr (paged ?coll lmt off)"
    by (simp add: many_env_def)
  have valid: "\<forall>k. is_token_valid (token_manager logged_in) (clock many_env k)"
    using valid_logged_in by (simp add: many_env_def sample_env_def)
  have parsed: "map_exn (parse_playlist_summary logged_in) ?coll = Inr (map ?h many_ids)"
    by (rule map_exn_map) (rule h(1))
  have len: "length many_ids = 120" by (simp add: many_ids_def)
  have ids: "map playlist_id (map ?h many_ids) = many_ids"
    by (simp add: map_idI h(2) comp_def)
  have u3: "[0..<3] = [0, 1, 2::nat]" and u2: "[0..<2] = [0, 1::nat]"
    by (simp_all add: upt_rec)
  have log: "api_log logged_in = []"
    by (simp add: logged_in_def sample_service_def new_service_def)
  have a: "playlist_summaries many_env None logged_in =
          Some (Inr (take 120 (map ?h many_ids)),
                logged_in\<lparr>ticks := ticks logged_in + 3,
                  api_log := api_log logged_in @
                    map (\<lambda>j. page_request (int 50) (int (j * 50))) [0..<3]\<rparr>)"
    by (rule playlist_summaries_paged[OF served valid parsed, where L = 0])
       (simp_all add: len)
  have b: "playlist_summaries many_env (Some 60) logged_in =
          Some (Inr (take 60 (map ?h many_ids)),
                logged_in\<lparr>ticks := ticks logged_in + 2,
                  api_log := api_log logged_in @
                    map (\<lambda>j. page_request (int 50) (int (j * 50))) [0..<2]\<rparr>)"
    by (rule playlist_summaries_paged[OF served valid parsed, where L = 60])
       (simp_all add: len)
  have c: "playlist_summaries many_env (Some 2) logged_in =
          Some (Inr (take 2 (map ?h many_ids)),
                logged_in\<lparr>ticks := ticks logged_in + 1,
                  api_log := api_log logged_in @
                    map (\<lambda>j. page_request (int 2) (int (j * 2))) [0..<1]\<rparr>)"
    by (rule playlist_summaries_paged[OF served valid parsed, where L = 2])
       (simp_all add: len)
  have t: "map playlist_id (take k (map ?h many_ids)) = take k many_ids" for k
    by (simp only: take_map[symmetric] ids)
  show ?thesis
    unfolding a b c by (simp add: t ids len log u3 u2 del: take_map map_map)
qed

section \<open>A failing track fetch\<close>

lemma load_tracks_append:
  "load_tracks e (xs @ ys) s =
     (case load_tracks e xs s of
        None \<Rightarrow> None
      | Some (dx, s1) \<Rightarrow>
          (case load_tracks e ys s1 of None \<Rightarrow> None | Some (dy, s2) \<Rightarrow> Some (dx @ dy, s2)))"
  by (induction xs arbitrary: s) (auto split: option.splits prod.splits)

lemma load_tracks_fields:
  "load_tracks e ps s = Some (loaded, s') \<Longrightarrow>
     map (\<lambda>q. q\<lparr>tracks := []\<rparr>) loaded = map (\<lambda>q. q\<lparr>tracks := []\<rparr>) ps"
  by (induction ps arbitrary: s loaded) (auto split: option.splits prod.splits)

text \<open>
  Claim C6: let the listing have fetched the summaries \<open>xs @ p # ys\<close>, and let the fetch of
  the details of \<open>p\<close> raise (any exception \<open>err\<close>), the playlists of \<open>xs\<close> before it and
  those of \<open>ys\<close> after it being loaded as \<open>dx\<close> and \<open>dy\<close>. Then \<open>get_user_playlists\<close>
  returns, and returns \<open>dx\<close>, then \<open>p\<close> with the empty track list, then \<open>dy\<close>: every
  playlist of the collection is there, in order and with its other fields unchanged,
  and the tracks of the others are what their own fetches gave. The instance is the
  scenario of three playlists where the track request of the second fails with a
  network error.
\<close>

theorem get_user_playlists_degrades:
  assumes "authenticated s"
    and "playlist_summaries e limit s = Some (Inr (xs @ p # ys), s0)"
    and "load_tracks e xs s0 = Some (dx, s1)"
    and "get_playlist_details e (playlist_id p) s1 = Some (Inl err, s2)"
    and "load_tracks e ys s2 = Some (dy, s3)"
  shows "get_user_playlists e limit s = Some (Inr (dx @ p\<lparr>tracks := []\<rparr> # dy), s3) \<and>
         map (\<lambda>q. q\<lparr>tracks := []\<rparr>) (dx @ p\<lparr>tracks := []\<rparr> # dy) =
           map (\<lambda>q. q\<lparr>tracks := []\<rparr>) (xs @ p # ys)"
proof -
  have "load_tracks e (p # ys) s1 = Some (p\<lparr>tracks := []\<rparr> # dy, s3)"
    using assms(4,5) by simp
  then have all: "load_tracks e (xs @ p # ys) s0 = Some (dx @ p\<lparr>tracks := []\<rparr> # dy, s3)"
    using assms(3) by (simp add: load_tracks_append)
  then have "get_user_playlists e limit s = Some (Inr (dx @ p\<lparr>tracks := []\<rparr> # dy), s3)"
    using assms(1,2) by (simp add: get_user_playlists_def)
  then show ?thesis using load_tracks_fields[OF all] by simp
qed

lemma usable_logged_in: "usable logged_in"
  by (simp add: usable_def logged_in_def)

lemma summaries_failing:
  "\<exists>q1 q2 q3 s0. playlist_summaries failing_env None logged_in = Some (Inr [q1, q2, q3], s0) \<and>
     playlist_id q1 = ''p1'' \<and> playlist_id q2 = ''p2'' \<and> playlist_id q3 = ''p3'' \<and> usable s0"
  apply (simp add: playlist_summaries_def)
  apply (subst playlists_loop.simps)
  apply (simp add: make_request_def Let_def tick_def get_access_token_def is_token_valid_def
      sample_simps paged_def parse_playlist_summary_def sample_playlist_def usable_def)
  done

lemma details_ok:
  assumes "usable s" and "pid \<noteq> ''p2''"
  shows "\<exists>d s1. get_playlist_details failing_env pid s = Some (Inr d, s1) \<and>
           map track_id (tracks d) = [pid @ ''-t1''] \<and> usable s1"
  using assms
  apply (simp add: get_playlist_details_def get_playlist_tracks_def usable_def)
  apply (simp add: make_request_def Let_def tick_def get_access_token_def is_token_valid_def
      sample_simps get_playlist_tracks_def)
  apply (subst tracks_loop.simps)
  apply (simp add: make_request_def Let_def tick_def get_access_token_def is_token_valid_def
      sample_simps paged_def parse_playlist_detailed_def parse_playlist_summary_def
      sample_playlist_def sample_item_def parse_track_def empty_album_def)
  done

lemma details_fail:
  assumes "usable s"
  shows "\<exists>s1. get_playlist_details failing_env ''p2'' s =
                  Some (Inl (TransportError ''connection reset''), s1) \<and> usable s1"
  using assms
  apply (simp add: get_playlist_details_def get_playlist_tracks_def usable_def)
  apply (simp add: make_request_def Let_def tick_def get_access_token_def is_token_valid_def
      sample_simps get_playlist_tracks_def)
  apply (subst tracks_loop.simps)
  apply (simp add: make_request_def Let_def tick_def get_access_token_def is_token_valid_def
      sample_simps)
  done

theorem get_user_playlists_degrades_witness:
  "(case get_user_playlists failing_env None logged_in of
      Some (Inr ps, s') \<Rightarrow>
        map playlist_id ps = [''p1'', ''p2'', ''p3''] \<and>
        map (\<lambda>p. map track_id (tracks p)) ps = [[''p1-t1''], [], [''p3-t1'']]
    | _ \<Rightarrow> False)"
proof -
  obtain q1 q2 q3 s0 where
    sums: "playlist_summaries failing_env None logged_in = Some (Inr ([q1] @ q2 # [q3]), s0)"
    and ids: "playlist_id q1 = ''p1''" "playlist_id q2 = ''p2''" "playlist_id q3 = ''p3''"
    and s0: "usable s0"
    using summaries_failing by auto
  obtain d1 s1 where d1: "get_playlist_details failing_env ''p1'' s0 = Some (Inr d1, s1)"
    "map track_id (tracks d1) = [''p1-t1'']" "usable s1"
    using details_ok[OF s0, of "''p1''"] by auto
  obtain s2 where d2: "get_playlist_details failing_env ''p2'' s1 =
       Some (Inl (TransportError ''connection reset''), s2)" "usable s2"
    using details_fail[OF d1(3)] by auto
  obtain d3 s3 where d3: "get_playlist_details failing_env ''p3'' s2 = Some (Inr d3, s3)"
    "map track_id (tracks d3) = [''p3-t1'']" "usable s3"
    using details_ok[OF d2(2), of "''p3''"] by auto
  have l1: "load_tracks failing_env [q1] s0 = Some ([q1\<lparr>tracks := tracks d1\<rparr>], s1)"
    using d1 ids by simp
  have l3: "load_tracks failing_env [q3] s2 = Some ([q3\<lparr>tracks := tracks d3\<rparr>], s3)"
    using d3 ids by simp
  have auth: "authenticated logged_in" by (simp add: logged_in_def)
  have "get_user_playlists failing_env None logged_in =
          Some (Inr ([q1\<lparr>tracks := tracks d1\<rparr>] @ q2\<lparr>tracks := []\<rparr> # [q3\<lparr>tracks := tracks d3\<rparr>]), s3)"
    using get_user_playlists_degrades[OF auth sums l1 _ l3, of "TransportError ''connection reset''"]
      d2 ids by simp
  then show ?thesis using ids d1 d3 by simp
qed

section \<open>The callback handler\<close>

text \<open>
  Claim C1, as stated, at a listener that has recorded the redirect \<open>code=A&state=S1\<close>:
  a second redirect \<open>code=B&state=S2\<close> is answered with status 200 and the recorded code
  and state become \<open>B\<close> and \<open>S2\<close>; a second redirect \<open>error=access_denied\<close> is answered
  with status 400, not 200.
\<close>

theorem do_GET_second_redirect_counterexample:
  "auth_code (serve [[(''code'', [''A'']), (''state'', [''S1''])]] fresh_server) = Some ''A'' \<and>
   fst (do_GET [(''code'', [''B'']), (''state'', [''S2''])]
          (serve [[(''code'', [''A'']), (''state'', [''S1''])]] fresh_server)) = Inr (Some 200) \<and>
   auth_code (serve [[(''code'', [''A'']), (''state'', [''S1''])],
                     [(''code'', [''B'']), (''state'', [''S2''])]] fresh_server) = Some ''B'' \<and>
   auth_state (serve [[(''code'', [''A'']), (''state'', [''S1''])],
                      [(''code'', [''B'']), (''state'', [''S2''])]] fresh_server) = Some ''S2'' \<and>
   fst (do_GET [(''error'', [''access_denied''])]
          (serve [[(''code'', [''A'']), (''state'', [''S1''])]] fresh_server)) = Inr (Some 400)"
  by (simp add: do_GET_def fresh_server_def)

lemma do_GET_code:
  assumes "parsed_query q" and "bears_code q"
  shows "do_GET q srv =
           (Inr (Some 200),
            srv\<lparr>auth_code := first_value q ''code'', auth_state := first_value q ''state'',
                callback_received := True\<rparr>)"
proof -
  obtain c cs where c: "map_of q ''code'' = Some (c # cs)"
    using assms by (cases "map_of q ''code''"; cases "the (map_of q ''code'')")
      (auto simp: parsed_query_def bears_code_def)
  show ?thesis
  proof (cases "map_of q ''state''")
    case None
    then show ?thesis using c by (simp add: do_GET_def first_value_def)
  next
    case (Some sts)
    then obtain st sts' where "sts = st # sts'"
      using assms(1) by (cases sts) (auto simp: parsed_query_def)
    then show ?thesis using c Some by (simp add: do_GET_def first_value_def)
  qed
qed

lemma do_GET_error:
  assumes "parsed_query q" and "\<not> bears_code q" and "bears_error q"
  shows "do_GET q srv =
           (Inr (Some 400), srv\<lparr>auth_error := first_value q ''error'', callback_received := True\<rparr>)"
proof -
  obtain er ers where "map_of q ''error'' = Some (er # ers)"
    using assms by (cases "map_of q ''error''"; cases "the (map_of q ''error'')")
      (auto simp: parsed_query_def bears_error_def)
  then show ?thesis using assms(2) by (simp add: do_GET_def first_value_def bears_code_def)
qed

lemma do_GET_no_code:
  assumes "\<not> bears_code q"
  shows "auth_code (snd (do_GET q srv)) = auth_code srv"
    and "auth_state (snd (do_GET q srv)) = auth_state srv"
  using assms
  by (auto simp: do_GET_def bears_code_def split: option.splits list.splits)

lemma serve_recorded:
  assumes "\<forall>q \<in> set qs. parsed_query q"
  shows "auth_code (serve qs srv) =
           (case filter bears_code qs of [] \<Rightarrow> auth_code srv
            | c # cs \<Rightarrow> first_value (last (c # cs)) ''code'') \<and>
         auth_state (serve qs srv) =
           (case filter bears_code qs of [] \<Rightarrow> auth_state srv
            | c # cs \<Rightarrow> first_value (last (c # cs)) ''state'')"
  using assms
proof (induction qs rule: rev_induct)
  case Nil
  show ?case by simp
next
  case (snoc q qs)
  have step: "serve (qs @ [q]) srv = snd (do_GET q (serve qs srv))"
    by (simp add: serve_append)
  have pq: "parsed_query q" using snoc.prems by simp
  have IH: "auth_code (serve qs srv) =
           (case filter bears_code qs of [] \<Rightarrow> auth_code srv
            | c # cs \<Rightarrow> first_value (last (c # cs)) ''code'')"
         "auth_state (serve qs srv) =
           (case filter bears_code qs of [] \<Rightarrow> auth_state srv
            | c # cs \<Rightarrow> first_value (last (c # cs)) ''state'')"
    using snoc by auto
  show ?case
  proof (cases "bears_code q")
    case True
    have "filter bears_code (qs @ [q]) = filter bears_code qs @ [q]" using True by simp
    then show ?thesis
      using do_GET_code[OF pq True, of "serve qs srv"]
      by (cases "filter bears_code qs") (simp_all add: step)
  next
    case False
    have "filter bears_code (qs @ [q]) = filter bears_code qs" using False by simp
    then show ?thesis
      using do_GET_no_code[OF False, of "serve qs srv"] IH by (simp add: step)
  qed
qed

text \<open>
  Claim C1, amended: for every listener, whatever it has recorded before, a GET request
  bearing \<open>code\<close> is answered with status 200 and sets the recorded code to its own and
  the recorded state to its own \<open>state\<close> (to none when it bears no \<open>state\<close>); a GET
  request bearing \<open>error\<close> and no \<open>code\<close> is answered with status 400, records the error
  and leaves the recorded code and state as they were. So after any sequence of
  requests the record holds the code and the state of the last request that bore a
  \<open>code\<close> (last writer wins), and what it held at the start when no request bore one.
  The queries are those \<open>parse_qs\<close> returns, in which no key has an empty list of
  values.
\<close>

theorem do_GET_records_each_redirect:
  assumes "\<forall>q \<in> set qs. parsed_query q"
  shows "(\<forall>q \<in> set qs. \<forall>srv'.
            (bears_code q \<longrightarrow>
               do_GET q srv' =
                 (Inr (Some 200),
                  srv'\<lparr>auth_code := first_value q ''code'', auth_state := first_value q ''state'',
                       callback_received := True\<rparr>)) \<and>
            (\<not> bears_code q \<and> bears_error q \<longrightarrow>
               do_GET q srv' =
                 (Inr (Some 400),
                  srv'\<lparr>auth_error := first_value q ''error'', callback_received := True\<rparr>))) \<and>
         auth_code (serve qs srv) =
           (case filter bears_code qs of [] \<Rightarrow> auth_code srv
            | c # cs \<Rightarrow> first_value (last (c # cs)) ''code'') \<and>
         auth_state (serve qs srv) =
           (case filter bears_code qs of [] \<Rightarrow> auth_state srv
            | c # cs \<Rightarrow> first_value (last (c # cs)) ''state'')"
proof -
  have "\<forall>q \<in> set qs. \<forall>srv'.
            (bears_code q \<longrightarrow>
               do_GET q srv' =
                 (Inr (Some 200),
                  srv'\<lparr>auth_code := first_value q ''code'', auth_state := first_value q ''state'',
                       callback_received := True\<rparr>)) \<and>
            (\<not> bears_code q \<and> bears_error q \<longrightarrow>
               do_GET q srv' =
                 (Inr (Some 400),
                  srv'\<lparr>auth_error := first_value q ''error'', callback_received := True\<rparr>))"
    using assms do_GET_code do_GET_error by blast
  then show ?thesis using serve_recorded[OF assms] by blast
qed

theorem do_GET_records_each_redirect_witness:
  "auth_code (serve [[(''code'', [''A'']), (''state'', [''S1''])],
                     [(''error'', [''access_denied''])],
                     [(''code'', [''B''])],
                     [(''favicon'', [''1''])]] fresh_server) = Some ''B'' \<and>
   auth_state (serve [[(''code'', [''A'']), (''state'', [''S1''])],
                      [(''error'', [''access_denied''])],
                      [(''code'', [''B''])],
                      [(''favicon'', [''1''])]] fresh_server) = None \<and>
   auth_code (serve [[(''code'', [''A'']), (''state'', [''S1''])],
                     [(''code'', [''B'']), (''state'', [''S2''])]] fresh_server) = Some ''B'' \<and>
   auth_state (serve [[(''code'', [''A'']), (''state'', [''S1''])],
                      [(''code'', [''B'']), (''state'', [''S2''])]] fresh_server) = Some ''S2'' \<and>
   fst (do_GET [(''code'', [''B''])] fresh_server) = Inr (Some 200) \<and>
   fst (do_GET [(''error'', [''access_denied''])] fresh_server) = Inr (Some 400)"
proof -
  let ?q1 = "[(''code'', [''A'']), (''state'', [''S1''])]"
  let ?q2 = "[(''error'', [''access_denied''])]"
  let ?q3 = "[(''code'', [''B''])]"
  let ?q4 = "[(''favicon'', [''1''])]"
  let ?q5 = "[(''code'', [''B'']), (''state'', [''S2''])]"
  have wf: "\<forall>q \<in> set [?q1, ?q2, ?q3, ?q4]. parsed_query q"
    "\<forall>q \<in> set [?q1, ?q5]. parsed_query q"
    by (simp_all add: parsed_query_def)
  have f1: "filter bears_code [?q1, ?q2, ?q3, ?q4] = [?q1, ?q3]"
    and f2: "filter bears_code [?q1, ?q5] = [?q1, ?q5]"
    and b: "bears_code ?q3" "\<not> bears_code ?q2" "bears_error ?q2"
    by (simp_all add: bears_code_def bears_error_def)
  note a = do_GET_records_each_redirect[OF wf(1), of fresh_server]
  note c = do_GET_records_each_redirect[OF wf(2), of fresh_server]
  have "auth_code (serve [?q1, ?q2, ?q3, ?q4] fresh_server) = Some ''B'' \<and>
        auth_state (serve [?q1, ?q2, ?q3, ?q4] fresh_server) = None"
    using a[THEN conjunct2, unfolded f1] by (simp del: serve.simps add: first_value_def)
  moreover have "auth_code (serve [?q1, ?q5] fresh_server) = Some ''B'' \<and>
        auth_state (serve [?q1, ?q5] fresh_server) = Some ''S2''"
    using c[THEN conjunct2, unfolded f2] by (simp del: serve.simps add: first_value_def)
  moreover have "fst (do_GET ?q3 fresh_server) = Inr (Some 200)"
    using a[THEN conjunct1] b by simp
  moreover have "fst (do_GET ?q2 fresh_server) = Inr (Some 400)"
    using a[THEN conjunct1] b by simp
  ultimately show ?thesis by (simp only: simp_thms)
qed

section \<open>Waiting for the callback\<close>

text \<open>
  Claim C2: let the server be started and \<open>S\<close> be the state token generated for the flow
  (\<open>expected_state\<close>), and let the wait end with a callback received whose record holds
  no error (a result that bears a state is the \<open>code\<close>/\<open>state\<close> kind, not the \<open>error\<close>
  kind, which is reported first). If the recorded state is not \<open>S\<close>, then
  \<open>wait_for_callback\<close> raises the state mismatch exception, whatever the recorded code,
  present or not.
\<close>

theorem wait_for_callback_state_mismatch:
  assumes "server s = Some srv0" and "expected_state s = Some S"
    and "wait_loop e (clock e (ticks s)) timeout (tick s) = Some (Inr u, s1)"
    and "server s1 = Some srv" and "\<not> truthy_str (auth_error srv)"
    and "auth_state srv \<noteq> Some S"
  shows "wait_for_callback e timeout s =
           Some (Inl (Exception ''State parameter mismatch - possible CSRF attack''), s1)"
proof -
  have "expected_state s1 = Some S"
    using wait_loop_expected_state(1)[OF assms(3)] assms(2) by (simp add: tick_def)
  then show ?thesis
    using assms by (simp add: wait_for_callback_def)
qed

theorem wait_for_callback_state_mismatch_witness:
  "map_option fst (wait_for_callback forged_env 300 awaiting) =
     Some (Inl (Exception ''State parameter mismatch - possible CSRF attack''))"
proof -
  let ?srv = "\<lparr>auth_code = Some ''C1'', auth_error = None, auth_state = Some ''forged'',
               callback_received = True\<rparr>"
  let ?s1 = "(tick (tick awaiting))\<lparr>server := Some ?srv\<rparr>"
  have a: "server awaiting = Some fresh_server"
    by (simp add: awaiting_def get_authorization_url_def start_server_def tick_def Let_def
        fresh_server_def sample_simps)
  have b: "expected_state awaiting = Some ''S1''"
    by (simp add: awaiting_def get_authorization_url_def start_server_def tick_def Let_def
        sample_simps)
  have c: "wait_loop forged_env (clock forged_env (ticks awaiting)) 300 (tick awaiting) =
             Some (Inr (), ?s1)"
    by (subst wait_loop.simps) (simp add: a tick_def Let_def forged_env_def do_GET_def fresh_server_def)
  have "wait_for_callback forged_env 300 awaiting =
          Some (Inl (Exception ''State parameter mismatch - possible CSRF attack''), ?s1)"
    by (rule wait_for_callback_state_mismatch[OF a b c, of ?srv]) (simp_all add: tick_def)
  then show ?thesis by simp
qed

section \<open>Refreshing the token\<close>

lemma refresh_iff:
  "authenticator_refresh_token e s = (True, s') \<longleftrightarrow>
     (\<exists>r resp a ei.
        token_endpoint e (ticks s) (refresh_form s) = Inr r \<and> status r = 200 \<and>
        body_json r = Inr resp \<and> wk_access_token resp = Some a \<and> wk_expires_in resp = Some ei \<and>
        \<not> disk_error e (ticks s + 2) \<and>
        s' = s\<lparr>ticks := ticks s + 3, token_log := token_log s @ [refresh_form s],
               token_manager :=
                 \<lparr>access_token = Some a,
                  refresh_token = (case wk_refresh_token resp of
                                     None \<Rightarrow> refresh_token (token_manager s) | Some rt \<Rightarrow> Some rt),
                  expires_at = Some (clock e (ticks s + 1) + real_of_int ei),
                  stored = Some \<lparr>td_access_token = Some a,
                                 td_refresh_token = (case wk_refresh_token resp of
                                     None \<Rightarrow> refresh_token (token_manager s) | Some rt \<Rightarrow> Some rt),
                                 td_expires_at = Some (clock e (ticks s + 1) + real_of_int ei)\<rparr>\<rparr>\<rparr>)"
proof (cases "token_endpoint e (ticks s) (refresh_form s)")
  case (Inl err)
  then show ?thesis
    by (simp add: authenticator_refresh_token_def refresh_access_token_def post_token_def
        refresh_form_def Let_def)
next
  case (Inr r)
  let ?s1 = "(tick s)\<lparr>token_log := token_log s @ [refresh_form s]\<rparr>"
  show ?thesis
  proof (cases "status r = 200")
    case False
    then show ?thesis using Inr
      by (simp add: authenticator_refresh_token_def refresh_access_token_def post_token_def
          refresh_form_def Let_def)
  next
    case True
    have post: "refresh_access_token e (refresh_token (token_manager s)) s = (body_json r, ?s1)"
      using Inr True by (simp add: refresh_access_token_def post_token_def refresh_form_def Let_def)
    show ?thesis
    proof (cases "body_json r")
      case (Inl err)
      then show ?thesis using Inr True post by (simp add: authenticator_refresh_token_def)
    next
      case resp: (Inr resp)
      show ?thesis
      proof (cases "wk_access_token resp")
        case None
        then show ?thesis using Inr True post resp
          by (simp add: authenticator_refresh_token_def)
      next
        case a: (Some a)
        show ?thesis
        proof (cases "wk_expires_in resp")
          case None
          then show ?thesis using Inr True post resp a
            by (simp add: authenticator_refresh_token_def)
        next
          case ei: (Some ei)
          show ?thesis
            using Inr True post resp a ei
            by (cases "wk_refresh_token resp"; cases "disk_error e (ticks s + 2)"; cases s)
               (auto simp: authenticator_refresh_token_def save_tokens_def
                  Let_def tick_def)
        qed
      qed
    qed
  qed
qed


lemma wait_loop_server:
  assumes "wait_loop e start timeout s = Some y"
  shows "server s \<noteq> None \<longrightarrow> server (snd y) \<noteq> None"
proof (rule wait_loop.raw_induct
    [where P = "\<lambda>e start timeout s y. server s \<noteq> None \<longrightarrow> server (snd y) \<noteq> None", OF _ assms])
  fix wl e start timeout s y
  assume IH: "\<And>start timeout s b y. wl start timeout s b = Some y \<Longrightarrow>
                server b \<noteq> None \<longrightarrow> server (snd y) \<noteq> None"
    and step: "(case server s of
      None \<Rightarrow> Some (Inl (AttributeError ''callback_received''), s)
      | Some srv \<Rightarrow>
          let srv1 = serve (arrivals e (ticks s)) srv;
              s1 = tick s\<lparr>server := Some srv1\<rparr>
          in if callback_received srv1 then Some (Inr (), s1)
             else if timeout < clock e (ticks s1) - start
                  then Some (Inl (TimeoutError ''OAuth callback timeout''), tick s1)
                  else wl e start timeout (tick s1)) = Some y"
  show "server s \<noteq> None \<longrightarrow> server (snd y) \<noteq> None"
  proof (cases "server s")
    case None
    then show ?thesis by simp
  next
    case (Some srv)
    let ?srv1 = "serve (arrivals e (ticks s)) srv"
    let ?s1 = "tick s\<lparr>server := Some ?srv1\<rparr>"
    consider (a) "callback_received ?srv1"
      | (b) "\<not> callback_received ?srv1" "timeout < clock e (ticks ?s1) - start"
      | (c) "\<not> callback_received ?srv1" "\<not> timeout < clock e (ticks ?s1) - start"
      by blast
    then show ?thesis
    proof cases
      case a
      then show ?thesis using step Some by (auto simp: Let_def tick_def)
    next
      case b
      then show ?thesis using step Some by (auto simp: Let_def tick_def)
    next
      case c
      then have "wl e start timeout (tick ?s1) = Some y"
        using step Some by (simp add: Let_def)
      from IH[OF this] show ?thesis by (simp add: tick_def)
    qed
  qed
qed

lemma wait_for_callback_frame:
  assumes "wait_for_callback e timeout s = Some (r, s')" and "server s \<noteq> None"
  shows "\<exists>srv k. s' = s\<lparr>server := Some srv, ticks := k\<rparr>"
proof -
  obtain y where w: "wait_loop e (clock e (ticks s)) timeout (tick s) = Some y"
    using assms by (cases "wait_loop e (clock e (ticks s)) timeout (tick s)")
      (auto simp: wait_for_callback_def)
  have "s' = snd y"
    using assms w
    by (cases y; cases "fst y"; cases "server (snd y)")
       (auto simp: wait_for_callback_def split: if_splits)
  moreover obtain srv k where "snd y = (tick s)\<lparr>server := srv, ticks := k\<rparr>"
    using wait_loop_frame[OF w] by blast
  moreover have "server (snd y) \<noteq> None"
    using wait_loop_server[OF w] assms(2) by (simp add: tick_def)
  ultimately obtain srv' where "s' = (tick s)\<lparr>server := Some srv', ticks := k\<rparr>"
    by (cases srv) auto
  then have "s' = s\<lparr>server := Some srv', ticks := k\<rparr>" by (simp add: tick_def)
  then show ?thesis by blast
qed

lemma post_token_frame:
  "post_token e f msg s = (r, s') \<Longrightarrow> s' = s\<lparr>ticks := ticks s + 1, token_log := token_log s @ [f]\<rparr>"
  by (auto simp: post_token_def Let_def tick_def split: sum.splits if_splits)

lemma save_tokens_frame:
  "save_tokens e a r ei s = (x, s') \<Longrightarrow> \<exists>tm. s' = s\<lparr>ticks := ticks s + 2, token_manager := tm\<rparr>"
  by (auto simp: save_tokens_def Let_def tick_def split: if_splits)

lemma new_authentication_try_flow:
  assumes start: "start_server e s0 = (Inr u, s1)"
    and url: "get_authorization_url e s1 = (auth_url, s2)"
    and t: "new_authentication_try e s0 = Some (r, s')"
  shows "browser_log s' = browser_log s0 @ [auth_url] \<and> expected_state s' = expected_state s2 \<and>
         server s' \<noteq> None"
proof -
  let ?s2 = "s2\<lparr>browser_log := browser_log s2 @ [auth_url]\<rparr>"
  have s1: "s1 = (tick s0)\<lparr>server := Some \<lparr>auth_code = None, auth_error = None, auth_state = None,
                                      callback_received = False\<rparr>, listening := True\<rparr>"
    using start by (auto simp: start_server_def split: if_splits)
  have s2: "s2 = (tick s1)\<lparr>expected_state := Some (random_state e (ticks s1))\<rparr>"
    using url by (auto simp: get_authorization_url_def Let_def)
  have sv: "server ?s2 \<noteq> None" by (simp add: s1 s2 tick_def)
  have bl: "browser_log ?s2 = browser_log s0 @ [auth_url]" by (simp add: s1 s2 tick_def)
  obtain r3 s3 where w: "wait_for_callback e 300 ?s2 = Some (r3, s3)"
    using t start url
    by (cases "wait_for_callback e 300 ?s2") (auto simp: new_authentication_try_def)
  obtain srv k where s3: "s3 = ?s2\<lparr>server := Some srv, ticks := k\<rparr>"
    using wait_for_callback_frame[OF w sv] by blast
  have g3: "browser_log s3 = browser_log s0 @ [auth_url] \<and> expected_state s3 = expected_state s2 \<and>
            server s3 \<noteq> None"
    using bl by (simp add: s3)
  show ?thesis
  proof (cases r3)
    case (Inl err)
    then show ?thesis using t start url w g3 by (simp add: new_authentication_try_def)
  next
    case (Inr code)
    show ?thesis
    proof (cases "truthy_str code")
      case False
      then show ?thesis using t start url w g3 Inr by (simp add: new_authentication_try_def)
    next
      case True
      obtain r4 s4 where x: "exchange_code_for_tokens e (get_or code []) s3 = (r4, s4)"
        by (cases "exchange_code_for_tokens e (get_or code []) s3")
      have g4: "browser_log s4 = browser_log s0 @ [auth_url] \<and> expected_state s4 = expected_state s2 \<and>
            server s4 \<noteq> None"
        using x g3 by (auto simp: exchange_code_for_tokens_def dest!: post_token_frame)
      show ?thesis
        using t start url w Inr True x g4
        by (cases r4)
           (auto simp: new_authentication_try_def split: sum.splits prod.splits
              dest!: save_tokens_frame)
    qed
  qed
qed

lemma new_authentication_flow:
  assumes start: "start_server e s0 = (Inr u, s1)"
    and url: "get_authorization_url e s1 = (auth_url, s2)"
    and n: "new_authentication e s0 = Some (ok, s')"
  shows "browser_log s' = browser_log s0 @ [auth_url] \<and>
         expected_state s' = Some (random_state e (ticks s0 + 1)) \<and>
         map_of (snd auth_url) ''state'' = Some (random_state e (ticks s0 + 1)) \<and>
         server s' \<noteq> None \<and> \<not> listening s'"
proof -
  obtain r1 s'' where t: "new_authentication_try e s0 = Some (r1, s'')"
    using n by (cases "new_authentication_try e s0") (auto simp: new_authentication_def)
  note f = new_authentication_try_flow[OF start url t]
  have s1: "ticks s1 = ticks s0 + 1"
    using start by (auto simp: start_server_def tick_def split: if_splits)
  have s2: "expected_state s2 = Some (random_state e (ticks s0 + 1))"
      "map_of (snd auth_url) ''state'' = Some (random_state e (ticks s0 + 1))"
    using url s1 by (auto simp: get_authorization_url_def Let_def)
  show ?thesis
    using n t f s2
    by (cases r1) (auto simp: new_authentication_def stop_server_def)
qed

lemma new_authentication_granted:
  assumes start: "start_server e s0 = (Inr u, s1)"
    and url: "get_authorization_url e s1 = (auth_url, s2)"
    and wait: "wait_for_callback e 300 (s2\<lparr>browser_log := browser_log s2 @ [auth_url]\<rparr>) =
                 Some (Inr (Some code), s3)"
    and code: "code \<noteq> []"
    and r: "token_endpoint e (ticks s3) (exchange_form code s3) = Inr r" "status r = 200"
      "body_json r = Inr resp" "wk_access_token resp = Some a" "wk_refresh_token resp = Some rt"
      "wk_expires_in resp = Some ei"
    and disk: "\<not> disk_error e (ticks s3 + 2)"
  shows "new_authentication e s0 =
           Some (True,
                 s3\<lparr>ticks := ticks s3 + 3, token_log := token_log s3 @ [exchange_form code s3],
                    token_manager :=
                      \<lparr>access_token = Some a, refresh_token = Some rt,
                       expires_at = Some (clock e (ticks s3 + 1) + real_of_int ei),
                       stored = Some \<lparr>td_access_token = Some a, td_refresh_token = Some rt,
                                      td_expires_at = Some (clock e (ticks s3 + 1) + real_of_int ei)\<rparr>\<rparr>,
                    listening := False\<rparr>)"
proof -
  let ?s2 = "s2\<lparr>browser_log := browser_log s2 @ [auth_url]\<rparr>"
  let ?s4 = "(tick s3)\<lparr>token_log := token_log s3 @ [exchange_form code s3]\<rparr>"
  have s1: "s1 = (tick s0)\<lparr>server := Some \<lparr>auth_code = None, auth_error = None, auth_state = None,
                                      callback_received = False\<rparr>, listening := True\<rparr>"
    using start by (auto simp: start_server_def split: if_splits)
  have s2: "s2 = (tick s1)\<lparr>expected_state := Some (random_state e (ticks s1))\<rparr>"
    using url by (auto simp: get_authorization_url_def Let_def)
  have sv: "server ?s2 \<noteq> None" by (simp add: s1 s2 tick_def)
  obtain srv k where s3: "s3 = ?s2\<lparr>server := Some srv, ticks := k\<rparr>"
    using wait_for_callback_frame[OF wait sv] by blast
  have sv3: "server s3 = Some srv" by (simp add: s3)
  have x: "exchange_code_for_tokens e code s3 = (Inr resp, ?s4)"
    using r by (simp add: exchange_code_for_tokens_def post_token_def exchange_form_def Let_def)
  have sav: "save_tokens e a (Some rt) ei ?s4 =
      (Inr (), s3\<lparr>ticks := ticks s3 + 3, token_log := token_log s3 @ [exchange_form code s3],
                    token_manager :=
                      \<lparr>access_token = Some a, refresh_token = Some rt,
                       expires_at = Some (clock e (ticks s3 + 1) + real_of_int ei),
                       stored = Some \<lparr>td_access_token = Some a, td_refresh_token = Some rt,
                                      td_expires_at = Some (clock e (ticks s3 + 1) + real_of_int ei)\<rparr>\<rparr>\<rparr>)"
    using disk by (cases s3) (simp add: save_tokens_def Let_def tick_def)
  have "new_authentication_try e s0 = Some (save_tokens e a (Some rt) ei ?s4)"
    using code r(4-6) by (simp add: new_authentication_try_def start url wait x)
  then show ?thesis
    using sv3 by (simp add: new_authentication_def sav stop_server_def)
qed

text \<open>
  Claim C7. \<open>_refresh_token\<close> succeeds (returns \<open>True\<close>) exactly when the token endpoint
  answers the refresh form with status 200 and a body holding an access token \<open>a\<close> and
  a lifetime \<open>ei\<close>, and the token file can be written; then the token manager and the
  token file hold \<open>a\<close>, the expiry \<open>now + ei\<close> and, as refresh token, the one of the
  response when it has one and the previously stored one when it has none, and nothing
  else has changed but the clock and the log of forms posted. When \<open>authenticate\<close> finds
  no valid token, has a refresh token and \<open>_refresh_token\<close> fails (returns \<open>False\<close>),
  \<open>authenticate\<close> goes on with a new interactive flow from the state the failed refresh
  left: with the callback server started and the authorization URL generated, every
  result of \<open>authenticate\<close> has that URL opened in the browser, a fresh state token
  expected that the URL carries, and the server stopped again; and when the wait
  ends with a code \<open>code\<close>, the token endpoint grants the exchange of \<open>code\<close> and the token
  file can be written, \<open>authenticate\<close> returns \<open>True\<close> with the tokens granted stored.
\<close>

theorem refresh_token_outcome:
  "(authenticator_refresh_token e s = (True, s') \<longleftrightarrow>
     (\<exists>r resp a ei.
        token_endpoint e (ticks s) (refresh_form s) = Inr r \<and> status r = 200 \<and>
        body_json r = Inr resp \<and> wk_access_token resp = Some a \<and> wk_expires_in resp = Some ei \<and>
        \<not> disk_error e (ticks s + 2) \<and>
        s' = s\<lparr>ticks := ticks s + 3, token_log := token_log s @ [refresh_form s],
               token_manager :=
                 \<lparr>access_token = Some a,
                  refresh_token = (case wk_refresh_token resp of
                                     None \<Rightarrow> refresh_token (token_manager s) | Some rt \<Rightarrow> Some rt),
                  expires_at = Some (clock e (ticks s + 1) + real_of_int ei),
                  stored = Some \<lparr>td_access_token = Some a,
                                 td_refresh_token = (case wk_refresh_token resp of
                                     None \<Rightarrow> refresh_token (token_manager s) | Some rt \<Rightarrow> Some rt),
                                 td_expires_at = Some (clock e (ticks s + 1) + real_of_int ei)\<rparr>\<rparr>\<rparr>)) \<and>
   (\<not> is_token_valid (token_manager s0) (clock e (ticks s0)) \<and>
    has_refresh_token (token_manager s0) \<and>
    authenticator_refresh_token e (tick s0) = (False, s1) \<and>
    start_server e s1 = (Inr u, s2) \<and> get_authorization_url e s2 = (auth_url, s3) \<and>
    authenticator_authenticate e s0 = Some (ok, s5) \<longrightarrow>
      browser_log s5 = browser_log s1 @ [auth_url] \<and>
      map_of (snd auth_url) ''state'' = Some (random_state e (ticks s1 + 1)) \<and>
      expected_state s5 = Some (random_state e (ticks s1 + 1)) \<and>
      server s5 \<noteq> None \<and> \<not> listening s5) \<and>
   (\<not> is_token_valid (token_manager s0) (clock e (ticks s0)) \<and>
    has_refresh_token (token_manager s0) \<and>
    authenticator_refresh_token e (tick s0) = (False, s1) \<and>
    start_server e s1 = (Inr u, s2) \<and> get_authorization_url e s2 = (auth_url, s3) \<and>
    wait_for_callback e 300 (s3\<lparr>browser_log := browser_log s3 @ [auth_url]\<rparr>) =
      Some (Inr (Some code), s4) \<and> code \<noteq> [] \<and>
    token_endpoint e (ticks s4) (exchange_form code s4) = Inr r' \<and> status r' = 200 \<and>
    body_json r' = Inr resp' \<and> wk_access_token resp' = Some a' \<and>
    wk_refresh_token resp' = Some rt' \<and> wk_expires_in resp' = Some ei' \<and>
    \<not> disk_error e (ticks s4 + 2) \<longrightarrow>
      authenticator_authenticate e s0 =
        Some (True,
              s4\<lparr>ticks := ticks s4 + 3, token_log := token_log s4 @ [exchange_form code s4],
                 token_manager :=
                   \<lparr>access_token = Some a', refresh_token = Some rt',
                    expires_at = Some (clock e (ticks s4 + 1) + real_of_int ei'),
                    stored = Some \<lparr>td_access_token = Some a', td_refresh_token = Some rt',
                                   td_expires_at = Some (clock e (ticks s4 + 1) + real_of_int ei')\<rparr>\<rparr>,
                 listening := False\<rparr>))"
proof -
  have entry: "authenticator_authenticate e s0 = new_authentication e s1"
    if "\<not> is_token_valid (token_manager s0) (clock e (ticks s0))"
      "has_refresh_token (token_manager s0)"
      "authenticator_refresh_token e (tick s0) = (False, s1)"
    using that by (simp add: authenticator_authenticate_def)
  have flow: "browser_log s5 = browser_log s1 @ [auth_url] \<and>
      map_of (snd auth_url) ''state'' = Some (random_state e (ticks s1 + 1)) \<and>
      expected_state s5 = Some (random_state e (ticks s1 + 1)) \<and>
      server s5 \<noteq> None \<and> \<not> listening s5"
    if "\<not> is_token_valid (token_manager s0) (clock e (ticks s0))"
      "has_refresh_token (token_manager s0)"
      "authenticator_refresh_token e (tick s0) = (False, s1)"
      "start_server e s1 = (Inr u, s2)" "get_authorization_url e s2 = (auth_url, s3)"
      "authenticator_authenticate e s0 = Some (ok, s5)"
  proof -
    have "new_authentication e s1 = Some (ok, s5)"
      using entry[OF that(1-3)] that(6) by (simp only:)
    from new_authentication_flow[OF that(4,5) this] show ?thesis by (simp only: simp_thms)
  qed
  have granted: "authenticator_authenticate e s0 =
        Some (True,
              s4\<lparr>ticks := ticks s4 + 3, token_log := token_log s4 @ [exchange_form code s4],
                 token_manager :=
                   \<lparr>access_token = Some a', refresh_token = Some rt',
                    expires_at = Some (clock e (ticks s4 + 1) + real_of_int ei'),
                    stored = Some \<lparr>td_access_token = Some a', td_refresh_token = Some rt',
                                   td_expires_at = Some (clock e (ticks s4 + 1) + real_of_int ei')\<rparr>\<rparr>,
                 listening := False\<rparr>)"
    if "\<not> is_token_valid (token_manager s0) (clock e (ticks s0))"
      "has_refresh_token (token_manager s0)"
      "authenticator_refresh_token e (tick s0) = (False, s1)"
      "start_server e s1 = (Inr u, s2)" "get_authorization_url e s2 = (auth_url, s3)"
      "wait_for_callback e 300 (s3\<lparr>browser_log := browser_log s3 @ [auth_url]\<rparr>) =
         Some (Inr (Some code), s4)" "code \<noteq> []"
      "token_endpoint e (ticks s4) (exchange_form code s4) = Inr r'" "status r' = 200"
      "body_json r' = Inr resp'" "wk_access_token resp' = Some a'"
      "wk_refresh_token resp' = Some rt'" "wk_expires_in resp' = Some ei'"
      "\<not> disk_error e (ticks s4 + 2)"
    using entry[OF that(1-3)] new_authentication_granted[OF that(4-14)] by (simp only:)
  show ?thesis
    apply (intro conjI)
    subgoal by (rule refresh_iff)
    subgoal by (intro impI, elim conjE) (rule flow)
    subgoal by (intro impI, elim conjE) (rule granted)
    done
qed

lemma refresh_refused_recover:
  "\<exists>s1. authenticator_refresh_token recover_env (tick expired_service) = (False, s1) \<and>
     server s1 = None \<and> ticks s1 = 2 \<and> browser_log s1 = [] \<and>
     config s1 = sample_config \<and>
     token_log s1 = [[(''grant_type'', Some ''refresh_token''), (''refresh_token'', Some ''R1''),
                       (''client_id'', Some ''id''), (''client_secret'', Some ''secret'')]]"
  by (simp add: authenticator_refresh_token_def refresh_access_token_def post_token_def
      save_tokens_def Let_def tick_def sample_simps recover_env_def)


theorem refresh_token_outcome_witness:
  "(case authenticator_refresh_token sample_env (tick expired_service) of
      (ok, s') \<Rightarrow>
        ok \<and> access_token (token_manager s') = Some ''T2'' \<and>
        expires_at (token_manager s') = Some 4600 \<and>
        refresh_token (token_manager s') = Some ''R1'' \<and>
        stored (token_manager s') =
          Some \<lparr>td_access_token = Some ''T2'', td_refresh_token = Some ''R1'',
                td_expires_at = Some 4600\<rparr> \<and>
        is_token_valid (token_manager s') 1000) \<and>
   \<not> fst (authenticator_refresh_token recover_env (tick expired_service)) \<and>
   (case authenticator_authenticate recover_env expired_service of
      Some (ok, s') \<Rightarrow>
        ok \<and> access_token (token_manager s') = Some ''T3'' \<and>
        refresh_token (token_manager s') = Some ''R3'' \<and>
        expires_at (token_manager s') = Some 4600 \<and>
        stored (token_manager s') =
          Some \<lparr>td_access_token = Some ''T3'', td_refresh_token = Some ''R3'',
                td_expires_at = Some 4600\<rparr> \<and>
        length (browser_log s') = 1 \<and> expected_state s' = Some ''S1'' \<and> \<not> listening s' \<and>
        map (\<lambda>f. map_of f ''grant_type'') (token_log s') =
          [Some (Some ''refresh_token''), Some (Some ''authorization_code'')]
    | None \<Rightarrow> False)"
proof -
  let ?t = "tick expired_service"
  let ?tm = "\<lparr>access_token = Some ''T2'', refresh_token = Some ''R1'', expires_at = Some 4600,
              stored = Some \<lparr>td_access_token = Some ''T2'', td_refresh_token = Some ''R1'',
                             td_expires_at = Some 4600\<rparr>\<rparr>"
  let ?s' = "?t\<lparr>ticks := ticks ?t + 3, token_log := token_log ?t @ [refresh_form ?t],
               token_manager := ?tm\<rparr>"
  have ok: "authenticator_refresh_token sample_env ?t = (True, ?s')"
    by (rule iffD2[OF conjunct1[OF refresh_token_outcome]])
       (simp add: sample_simps tick_def refresh_form_def ok_response_def)
  obtain s1 where s1: "authenticator_refresh_token recover_env ?t = (False, s1)"
    "server s1 = None" "ticks s1 = 2" "browser_log s1 = []" "config s1 = sample_config"
    "token_log s1 = [[(''grant_type'', Some ''refresh_token''), (''refresh_token'', Some ''R1''),
                       (''client_id'', Some ''id''), (''client_secret'', Some ''secret'')]]"
    using refresh_refused_recover by blast
  have pre: "\<not> is_token_valid (token_manager expired_service) (clock recover_env (ticks expired_service))"
    "has_refresh_token (token_manager expired_service)"
    by (simp_all add: is_token_valid_def has_refresh_token_def sample_simps recover_env_def)
  let ?s2 = "snd (start_server recover_env s1)"
  let ?url = "fst (get_authorization_url recover_env ?s2)"
  let ?s3 = "snd (get_authorization_url recover_env ?s2)"
  let ?o = "?s3\<lparr>browser_log := browser_log ?s3 @ [?url]\<rparr>"
  let ?srv = "\<lparr>auth_code = Some ''C1'', auth_error = None, auth_state = Some ''S1'',
               callback_received = True\<rparr>"
  let ?s4 = "(tick (tick ?o))\<lparr>server := Some ?srv\<rparr>"
  have env: "port_busy recover_env k = False" "random_state recover_env k = ''S1''"
    "arrivals recover_env k = [[(''code'', [''C1'']), (''state'', [''S1''])]]"
    "clock recover_env k = 1000" "disk_error recover_env k = False"
    "token_endpoint recover_env k (exchange_form ''C1'' st) =
       Inr (ok_response \<lparr>wk_access_token = Some ''T3'', wk_refresh_token = Some ''R3'',
                          wk_expires_in = Some 3600\<rparr>)" for k st
    by (simp_all add: recover_env_def sample_env_def exchange_form_def)
  have start: "start_server recover_env s1 = (Inr (), ?s2)"
    by (simp add: start_server_def env)
  have url: "get_authorization_url recover_env ?s2 = (?url, ?s3)" by simp
  have srv3: "server ?s3 = Some fresh_server" "expected_state ?s3 = Some ''S1''"
    by (simp_all add: get_authorization_url_def start_server_def Let_def tick_def env
        fresh_server_def)
  have loop: "wait_loop recover_env (clock recover_env (ticks ?o)) 300 (tick ?o) = Some (Inr (), ?s4)"
    by (subst wait_loop.simps)
       (simp add: srv3 env tick_def Let_def do_GET_def fresh_server_def)
  have wait: "wait_for_callback recover_env 300 ?o = Some (Inr (Some ''C1''), ?s4)"
  proof -
    have so: "server ?o = Some fresh_server" using srv3 by simp
    have s4: "server ?s4 = Some ?srv" "expected_state ?s4 = Some ''S1''"
      using srv3 by (simp_all add: tick_def)
    show ?thesis
      by (simp only: wait_for_callback_def so loop s4 option.case prod.case sum.case)
         simp
  qed
  let ?s5 = "?s4\<lparr>ticks := ticks ?s4 + 3, token_log := token_log ?s4 @ [exchange_form ''C1'' ?s4],
                 token_manager :=
                   \<lparr>access_token = Some ''T3'', refresh_token = Some ''R3'',
                    expires_at = Some (clock recover_env (ticks ?s4 + 1) + real_of_int 3600),
                    stored = Some \<lparr>td_access_token = Some ''T3'', td_refresh_token = Some ''R3'',
                                   td_expires_at = Some (clock recover_env (ticks ?s4 + 1) + real_of_int 3600)\<rparr>\<rparr>,
                 listening := False\<rparr>"
  let ?resp = "\<lparr>wk_access_token = Some ''T3'', wk_refresh_token = Some ''R3'',
                wk_expires_in = Some 3600\<rparr>"
  have te: "token_endpoint recover_env (ticks ?s4) (exchange_form ''C1'' ?s4) = Inr (ok_response ?resp)"
    by (rule env(6))
  have resp: "status (ok_response ?resp) = 200" "body_json (ok_response ?resp) = Inr ?resp"
    "wk_access_token ?resp = Some ''T3''" "wk_refresh_token ?resp = Some ''R3''"
    "wk_expires_in ?resp = Some 3600" "''C1'' \<noteq> []"
    "\<not> disk_error recover_env (ticks ?s4 + 2)"
    by (simp_all add: ok_response_def env(5))
  have run: "authenticator_authenticate recover_env expired_service = Some (True, ?s5)"
    by (rule mp[OF conjunct2[OF conjunct2[OF refresh_token_outcome
           [where e = recover_env and ?s0.0 = expired_service and ?s1.0 = s1 and u = "()"
              and ?s2.0 = ?s2 and auth_url = ?url and ?s3.0 = ?s3 and code = "''C1''"
              and ?s4.0 = ?s4 and r' = "ok_response ?resp" and resp' = ?resp
              and a' = "''T3''" and rt' = "''R3''" and ei' = 3600]]]])
       (intro conjI pre s1(1) start url wait te resp)
  have flow: "browser_log ?s5 = browser_log s1 @ [?url] \<and>
      map_of (snd ?url) ''state'' = Some (random_state recover_env (ticks s1 + 1)) \<and>
      expected_state ?s5 = Some (random_state recover_env (ticks s1 + 1)) \<and>
      server ?s5 \<noteq> None \<and> \<not> listening ?s5"
    by (rule mp[OF conjunct1[OF conjunct2[OF refresh_token_outcome
           [where e = recover_env and ?s0.0 = expired_service and ?s1.0 = s1 and u = "()"
              and ?s2.0 = ?s2 and auth_url = ?url and ?s3.0 = ?s3 and ok = True
              and ?s5.0 = ?s5]]]])
       (intro conjI pre s1(1) start url run)
  define s5 where "s5 = ?s5"
  define s' where "s' = ?s'"
  have run': "authenticator_authenticate recover_env expired_service = Some (True, s5)"
    using run by (simp only: s5_def)
  have ok': "authenticator_refresh_token sample_env ?t = (True, s')"
    using ok by (simp only: s'_def)
  have a: "access_token (token_manager s') = Some ''T2''" "expires_at (token_manager s') = Some 4600"
    "refresh_token (token_manager s') = Some ''R1''"
    "stored (token_manager s') =
       Some \<lparr>td_access_token = Some ''T2'', td_refresh_token = Some ''R1'',
             td_expires_at = Some 4600\<rparr>"
    by (simp_all add: s'_def)
  have b: "access_token (token_manager s5) = Some ''T3''"
    "refresh_token (token_manager s5) = Some ''R3''"
    "expires_at (token_manager s5) = Some 4600"
    "stored (token_manager s5) =
       Some \<lparr>td_access_token = Some ''T3'', td_refresh_token = Some ''R3'',
             td_expires_at = Some 4600\<rparr>"
    by (simp_all add: s5_def env(4))
  have c: "length (browser_log s5) = 1" "expected_state s5 = Some ''S1''" "\<not> listening s5"
    using flow s1(4) by (simp_all only: s5_def env(2) list.size append_Nil) simp_all
  have d: "map (\<lambda>f. map_of f ''grant_type'') (token_log s5) =
          [Some (Some ''refresh_token''), Some (Some ''authorization_code'')]"
    by (simp add: s5_def get_authorization_url_def start_server_def Let_def tick_def env s1
        exchange_form_def)
  show ?thesis
    by (simp add: ok' run' s1(1) a b c d is_token_valid_def)
qed

section \<open>A denied authorization\<close>

text \<open>
  Claim C8: let a run of \<open>authenticate\<close> enter the interactive flow at the state \<open>s0\<close>
  (at once, or after a refresh attempt that failed), the server start, the
  authorization URL be generated and opened, and the wait end with a callback whose
  record holds the error \<open>err\<close>. Then \<open>authenticate\<close> fails: it returns \<open>False\<close>, the
  exception it caught and reported last is the one \<open>wait_for_callback\<close> raises for the
  error (\<open>OAuth error: err\<close>), the callback server is stopped, and nothing was posted to
  the token endpoint since the flow was entered: no \<open>authorization_code\<close> exchange
  request is sent.
\<close>

theorem authenticate_denied:
  assumes entry: "authenticator_authenticate e s = new_authentication e s0"
    and start: "start_server e s0 = (Inr u, s1)"
    and url: "get_authorization_url e s1 = (auth_url, s2)"
    and wait: "wait_loop e (clock e (ticks s2)) 300
                 (tick (s2\<lparr>browser_log := browser_log s2 @ [auth_url]\<rparr>)) = Some (Inr u', s3)"
    and srv: "server s3 = Some srv" and err: "auth_error srv = Some err" and ne: "err \<noteq> []"
  shows "authenticator_authenticate e s =
           Some (False, s3\<lparr>reported := reported s3 @ [Exception (''OAuth error: '' @ err)],
                           listening := False\<rparr>) \<and>
         token_log s3 = token_log s0"
proof -
  let ?s2 = "s2\<lparr>browser_log := browser_log s2 @ [auth_url]\<rparr>"
  have s1: "s1 = (tick s0)\<lparr>server := Some \<lparr>auth_code = None, auth_error = None, auth_state = None,
                                      callback_received = False\<rparr>, listening := True\<rparr>"
    using start by (auto simp: start_server_def split: if_splits)
  have s2: "s2 = (tick s1)\<lparr>expected_state := Some (random_state e (ticks s1))\<rparr>"
    using url by (auto simp: get_authorization_url_def Let_def)
  have sv: "server ?s2 \<noteq> None" by (simp add: s1 s2 tick_def)
  have tl: "token_log s3 = token_log s0"
    using wait_loop_expected_state(2)[OF wait] by (simp add: s1 s2 tick_def)
  have w: "wait_for_callback e 300 ?s2 =
             Some (Inl (Exception (''OAuth error: '' @ err)), s3)"
    using sv wait srv err ne by (auto simp: wait_for_callback_def tick_def)
  have "new_authentication_try e s0 = Some (Inl (Exception (''OAuth error: '' @ err)), s3)"
    by (simp add: new_authentication_try_def start url w)
  then have "new_authentication e s0 =
     Some (False, s3\<lparr>reported := reported s3 @ [Exception (''OAuth error: '' @ err)],
                           listening := False\<rparr>)"
    using srv by (simp add: new_authentication_def stop_server_def)
  then show ?thesis using entry tl by simp
qed

lemma refresh_refused_denied:
  "\<exists>s0. authenticator_refresh_token denied_env (tick expired_service) = (False, s0) \<and>
     server s0 = None \<and> ticks s0 = 2 \<and> listening s0 = False \<and> browser_log s0 = [] \<and>
     token_log s0 = [[(''grant_type'', Some ''refresh_token''), (''refresh_token'', Some ''R1''),
                       (''client_id'', Some ''id''), (''client_secret'', Some ''secret'')]]"
  by (simp add: authenticator_refresh_token_def refresh_access_token_def post_token_def
      save_tokens_def Let_def tick_def sample_simps)

theorem authenticate_denied_witness:
  "(case authenticator_authenticate denied_env expired_service of
      Some (ok, s') \<Rightarrow>
        \<not> ok \<and> last (reported s') = Exception ''OAuth error: access_denied'' \<and>
        \<not> listening s' \<and>
        filter (\<lambda>f. map_of f ''grant_type'' = Some (Some ''authorization_code'')) (token_log s') = []
    | None \<Rightarrow> False)"
proof -
  obtain s0 where s0: "authenticator_refresh_token denied_env (tick expired_service) = (False, s0)"
    "server s0 = None" "ticks s0 = 2"
    "token_log s0 = [[(''grant_type'', Some ''refresh_token''), (''refresh_token'', Some ''R1''),
                       (''client_id'', Some ''id''), (''client_secret'', Some ''secret'')]]"
    using refresh_refused_denied by blast
  have entry: "authenticator_authenticate denied_env expired_service = new_authentication denied_env s0"
    using s0(1)
    by (simp add: authenticator_authenticate_def is_token_valid_def has_refresh_token_def
        sample_simps)
  let ?s1 = "snd (start_server denied_env s0)"
  let ?url = "fst (get_authorization_url denied_env ?s1)"
  let ?s2 = "snd (get_authorization_url denied_env ?s1)"
  let ?srv = "\<lparr>auth_code = None, auth_error = Some ''access_denied'', auth_state = None,
               callback_received = True\<rparr>"
  let ?s3 = "(tick (tick (?s2\<lparr>browser_log := browser_log ?s2 @ [?url]\<rparr>)))\<lparr>server := Some ?srv\<rparr>"
  have start: "start_server denied_env s0 = (Inr (), ?s1)"
    by (simp add: start_server_def sample_simps)
  have url: "get_authorization_url denied_env ?s1 = (?url, ?s2)" by simp
  have srv2: "server ?s2 = Some fresh_server"
    by (simp add: get_authorization_url_def start_server_def Let_def tick_def sample_simps
        fresh_server_def)
  have arr: "arrivals denied_env k = [[(''error'', [''access_denied''])]]" for k
    by (simp add: denied_env_def)
  have wait: "wait_loop denied_env (clock denied_env (ticks ?s2)) 300
                 (tick (?s2\<lparr>browser_log := browser_log ?s2 @ [?url]\<rparr>)) = Some (Inr (), ?s3)"
    by (subst wait_loop.simps)
       (simp add: srv2 arr tick_def Let_def do_GET_def fresh_server_def)
  have "authenticator_authenticate denied_env expired_service =
           Some (False, ?s3\<lparr>reported := reported ?s3 @ [Exception (''OAuth error: '' @ ''access_denied'')],
                           listening := False\<rparr>) \<and>
         token_log ?s3 = token_log s0"
    by (rule authenticate_denied[OF entry start url wait, of ?srv]) (simp_all add: tick_def)
  then show ?thesis using s0(4) by simp
qed

end
